theory Spec2Isabelle
  imports Complex_Main "HOL-Library.AList" "HOL-Library.Log_Nat"
begin

section \<open>Python values and exceptions\<close>

text \<open>
  In the constraint modules Python floats and the entries of numpy arrays are modelled as
  exact reals: the coefficients of the constraints are stated as the expressions that the
  code evaluates, and their rounding is not represented. The emission thresholds of the
  Pareto sweep are computed in the float64 arithmetic modelled in the section on
  \<open>model/model.py\<close>. An exception is a value of \<open>py_error\<close> and a function that can
  raise returns \<open>py_error + 'a\<close>, with \<open>Inl\<close> for the exception.
\<close>

datatype py_error =
    ZeroDivisionError
  | IndexError
  | KeyError
  | ValueError
  | AttributeError
  | OverflowError
  | RuntimeError string

definition ebind :: "py_error + 'a \<Rightarrow> ('a \<Rightarrow> py_error + 'b) \<Rightarrow> py_error + 'b" where
  "ebind m f = (case m of Inl e \<Rightarrow> Inl e | Inr x \<Rightarrow> f x)"

text \<open>\<open>a / b\<close> on Python floats raises when the divisor is zero.\<close>

definition py_truediv :: "real \<Rightarrow> real \<Rightarrow> py_error + real" where
  "py_truediv a b = (if b = 0 then Inl ZeroDivisionError else Inr (a / b))"

text \<open>\<open>a // b\<close> on Python ints: floor division, raising when the divisor is zero.\<close>

definition py_floordiv :: "int \<Rightarrow> int \<Rightarrow> py_error + int" where
  "py_floordiv a b = (if b = 0 then Inl ZeroDivisionError else Inr (a div b))"

text \<open>\<open>xs[i]\<close> on a Python list or a numpy vector: a negative index counts from the end.\<close>

definition py_index :: "'a list \<Rightarrow> int \<Rightarrow> py_error + 'a" where
  "py_index xs i =
     (if 0 \<le> i \<and> i < int (length xs) then Inr (xs ! nat i)
      else if i < 0 \<and> - int (length xs) \<le> i then Inr (xs ! nat (int (length xs) + i))
      else Inl IndexError)"

section \<open>Project settings\<close>

text \<open>The fields of \<open>ProjectParameters\<close> that the modelled functions read.\<close>

record advanced_settings =
  wacc_calculation :: int
  equity_share :: real
  debt_share :: real
  cost_of_debt :: real
  tax :: real
  cost_of_equity :: real
  brownfield :: bool
  capacity_expansion :: bool
  step_duration :: int
  milp_formulation :: bool
  grid_connection_type :: int

record project_settings =
  discount_rate :: real
  lost_load_fraction :: real
  renewable_penetration :: real
  optimization_goal :: int

text \<open>
  \<open>partial_load\<close> is \<open>settings.generator_params.partial_load\<close>, and
  \<open>tes_storage_efficiency\<close> is \<open>settings.tes_params.tes_storage_efficiency\<close>, read
  by (year, period).
\<close>

record project_parameters =
  advanced :: advanced_settings
  project :: project_settings
  partial_load :: bool
  tes_storage_efficiency :: "int \<Rightarrow> int \<Rightarrow> real"

section \<open>Discount rate (model/utils.py)\<close>

definition operate_discount_rate :: "project_parameters \<Rightarrow> py_error + real" where
  "operate_discount_rate data =
     (let wacc = wacc_calculation (advanced data);
          equity = equity_share (advanced data);
          debt = debt_share (advanced data);
          cod = cost_of_debt (advanced data);
          tx = tax (advanced data);
          coe = cost_of_equity (advanced data)
      in if wacc = 1 then
           (if equity = 0 then Inr (cod * (1 - tx))
            else ebind (py_truediv debt equity) (\<lambda>leverage.
                 ebind (py_truediv (cod * (1 - tx) * leverage) (1 + leverage)) (\<lambda>debt_part.
                 ebind (py_truediv coe (1 + leverage)) (\<lambda>equity_part.
                 Inr (debt_part + equity_part)))))
         else Inr (discount_rate (project data)))"

section \<open>Labelled arrays, variables and constraints (xarray and linopy)\<close>

text \<open>
  The dimensions of the model are years, steps, periods, scenarios, renewable sources,
  generator types and sample points. A value of \<open>coords\<close> gives one label on every
  dimension. An xarray \<open>DataArray\<close> is its value at each such tuple; an array that lacks a
  dimension does not depend on that component, which is how xarray broadcasts.
\<close>

record coords =
  year :: int
  step :: int
  period :: int
  scenario :: int
  renewable_source :: string
  generator_type :: string
  sample_point :: int

definition origin :: coords where
  "origin = \<lparr>year = 0, step = 0, period = 0, scenario = 0, renewable_source = [],
             generator_type = [], sample_point = 0\<rparr>"

type_synonym array = "coords \<Rightarrow> real"

type_synonym dataset = "string \<Rightarrow> array"

text \<open>One keyword of \<open>.sel(...)\<close>: a dimension and the label chosen on it.\<close>

datatype selector =
    Years int
  | Steps int
  | Periods int
  | Scenarios int
  | Renewable_sources string
  | Generator_types string
  | Sample_points int

fun select :: "selector \<Rightarrow> coords \<Rightarrow> coords" where
  "select (Years y) c = c\<lparr>year := y\<rparr>"
| "select (Steps s) c = c\<lparr>step := s\<rparr>"
| "select (Periods p) c = c\<lparr>period := p\<rparr>"
| "select (Scenarios w) c = c\<lparr>scenario := w\<rparr>"
| "select (Renewable_sources r) c = c\<lparr>renewable_source := r\<rparr>"
| "select (Generator_types g) c = c\<lparr>generator_type := g\<rparr>"
| "select (Sample_points k) c = c\<lparr>sample_point := k\<rparr>"

definition sel :: "selector list \<Rightarrow> coords \<Rightarrow> coords" where
  "sel ss c = fold select ss c"

text \<open>\<open>a.sel(...)\<close> on a parameter array, and \<open>a.item()\<close> on an array of one element.\<close>

definition asel :: "selector list \<Rightarrow> array \<Rightarrow> array" where
  "asel ss a = (\<lambda>c. a (sel ss c))"

definition item :: "array \<Rightarrow> real" where
  "item a = a origin"

text \<open>
  A solver assignment gives every named variable a value at every coordinate tuple. A
  linopy expression is modelled by the value it takes under an assignment at a coordinate
  tuple of its remaining (unselected) dimensions.
\<close>

type_synonym assignment = "string \<Rightarrow> coords \<Rightarrow> real"

type_synonym expr = "assignment \<Rightarrow> coords \<Rightarrow> real"

definition var :: "string \<Rightarrow> selector list \<Rightarrow> expr" where
  "var n ss = (\<lambda>v c. v n (sel ss c))"

definition const :: "array \<Rightarrow> expr" where
  "const a = (\<lambda>v c. a c)"

definition num :: "real \<Rightarrow> expr" where
  "num r = (\<lambda>v c. r)"

definition esel :: "selector list \<Rightarrow> expr \<Rightarrow> expr" where
  "esel ss e = (\<lambda>v c. e v (sel ss c))"

definition eadd :: "expr \<Rightarrow> expr \<Rightarrow> expr" where
  "eadd e1 e2 = (\<lambda>v c. e1 v c + e2 v c)"

definition esub :: "expr \<Rightarrow> expr \<Rightarrow> expr" where
  "esub e1 e2 = (\<lambda>v c. e1 v c - e2 v c)"

definition emul :: "expr \<Rightarrow> expr \<Rightarrow> expr" where
  "emul e1 e2 = (\<lambda>v c. e1 v c * e2 v c)"

text \<open>
  Division of an expression or array by an array. xarray gives \<open>inf\<close> or \<open>nan\<close> where the
  divisor is zero and raises nothing; the model has the HOL value \<open>0\<close> there.
\<close>

definition ediv :: "expr \<Rightarrow> expr \<Rightarrow> expr" where
  "ediv e1 e2 = (\<lambda>v c. e1 v c / e2 v c)"

text \<open>\<open>e.sum(dim)\<close> over the labels of one dimension.\<close>

definition esum :: "('l \<Rightarrow> selector) \<Rightarrow> 'l list \<Rightarrow> expr \<Rightarrow> expr" where
  "esum axis labels e = (\<lambda>v c. \<Sum>l\<leftarrow>labels. e v (select (axis l) c))"


datatype sense = EQ | LE | GE

text \<open>
  A constraint name written as an f-string is kept as the template and the values that
  fill its holes.
\<close>

type_synonym cname = "string \<times> selector list"

record constr =
  cname :: cname
  lhs :: expr
  sense :: sense
  rhs :: expr

text \<open>
  The part of \<open>linopy.Model\<close> that the constraint modules change is the list of named
  constraints; \<open>add_constraints\<close> appends to it. linopy refuses a name that the model
  already holds; the names built below differ whenever the labels of a set are distinct,
  and that refusal is not part of the model.
\<close>

type_synonym constraints = "constr list"

definition add_constraints :: "cname \<Rightarrow> expr \<Rightarrow> sense \<Rightarrow> expr \<Rightarrow> constraints \<Rightarrow> constraints" where
  "add_constraints n l s r m = m @ [\<lparr>cname = n, lhs = l, sense = s, rhs = r\<rparr>]"

text \<open>A constraint holds under an assignment at a coordinate tuple.\<close>

definition holds :: "assignment \<Rightarrow> coords \<Rightarrow> constr \<Rightarrow> bool" where
  "holds v c k =
     (case sense k of
        EQ \<Rightarrow> lhs k v c = rhs k v c
      | LE \<Rightarrow> lhs k v c \<le> rhs k v c
      | GE \<Rightarrow> lhs k v c \<ge> rhs k v c)"

text \<open>An assignment is feasible on a grid of coordinate tuples.\<close>

definition feasible :: "assignment \<Rightarrow> coords list \<Rightarrow> constraints \<Rightarrow> bool" where
  "feasible v grid m = list_all (\<lambda>k. list_all (\<lambda>c. holds v c k) grid) m"

record sets =
  years :: "int list"
  steps :: "int list"
  periods :: "int list"
  scenarios :: "int list"
  renewable_sources :: "string list"
  generator_types :: "string list"

text \<open>Loops whose body can raise: the first exception ends the loop.\<close>

fun for_each :: "'a list \<Rightarrow> ('a \<Rightarrow> 's \<Rightarrow> py_error + 's) \<Rightarrow> 's \<Rightarrow> py_error + 's" where
  "for_each [] body s = Inr s"
| "for_each (x # xs) body s = ebind (body x s) (for_each xs body)"

fun emap :: "('a \<Rightarrow> py_error + 'b) \<Rightarrow> 'a list \<Rightarrow> py_error + 'b list" where
  "emap f [] = Inr []"
| "emap f (x # xs) = ebind (f x) (\<lambda>y. ebind (emap f xs) (\<lambda>ys. Inr (y # ys)))"

text \<open>
  \<open>v.sel(dim=label)\<close> on a variable raises \<open>KeyError\<close> when the label is not a coordinate
  of the dimension. It is checked where the label is computed, not taken from the set.
\<close>

definition check_label :: "int \<Rightarrow> int list \<Rightarrow> py_error + unit" where
  "check_label l labels = (if l \<in> set labels then Inr () else Inl KeyError)"

section \<open>Thermal storage (model/constraints/TES\_constraints.py)\<close>

text \<open>
  \<open>add_tes_state_of_charge_constraints\<close>. The body of the loop over (year, period) is
  \<open>tes_soc_body\<close>, its choice of the previous state is \<open>tes_soc_previous\<close>, and the body of
  the second loop over years is \<open>tes_soc_bounds_body\<close>.
\<close>

definition tes_soc_previous ::
  "sets \<Rightarrow> int \<Rightarrow> int \<Rightarrow> int \<Rightarrow> real \<Rightarrow> real \<Rightarrow> int \<Rightarrow> int \<Rightarrow> py_error + expr" where
  "tes_soc_previous S first_year first_period last_period tes_capacity tes_initial_soc_fraction y p =
     (let soc = var ''tes_soc'' [Years y, Periods p]
      in if y = first_year \<and> p = first_period then
           Inr (eadd (emul (num 0) soc) (num (tes_capacity * tes_initial_soc_fraction)))
         else if p = first_period then
           ebind (check_label (y - 1) (years S)) (\<lambda>_.
             Inr (var ''tes_soc'' [Years (y - 1), Periods last_period]))
         else
           ebind (check_label (p - 1) (periods S)) (\<lambda>_.
             Inr (var ''tes_soc'' [Years y, Periods (p - 1)])))"

definition tes_soc_body ::
  "project_parameters \<Rightarrow> sets \<Rightarrow> int \<Rightarrow> int \<Rightarrow> int \<Rightarrow> real \<Rightarrow> real \<Rightarrow> real \<Rightarrow> int \<Rightarrow> int
     \<Rightarrow> constraints \<Rightarrow> py_error + constraints" where
  "tes_soc_body settings S first_year first_period last_period delta_time tes_capacity
       tes_initial_soc_fraction y p model =
     (let soc = var ''tes_soc'' [Years y, Periods p];
          charge = var ''tes_charge'' [Years y, Periods p];
          discharge = var ''tes_discharge'' [Years y, Periods p]
      in ebind (tes_soc_previous S first_year first_period last_period tes_capacity
                  tes_initial_soc_fraction y p)
           (\<lambda>soc_previous.
              Inr (add_constraints
                     (''TES State of Charge Constraint - Year {year}, Period {period}'',
                      [Years y, Periods p])
                     soc EQ
                     (eadd (emul soc_previous (num (tes_storage_efficiency settings y p)))
                           (emul (esub charge discharge) (num delta_time)))
                     model)))"

definition tes_soc_bounds_body :: "real \<Rightarrow> int \<Rightarrow> constraints \<Rightarrow> constraints" where
  "tes_soc_bounds_body tes_capacity y model =
     add_constraints (''TES Minimum Charge Constraint - Year {year}'', [Years y])
       (var ''tes_soc'' [Years y]) GE (num 0)
       (add_constraints (''TES Maximum Charge Constraint - Year {year}'', [Years y])
          (var ''tes_soc'' [Years y]) LE (num tes_capacity) model)"

definition add_tes_state_of_charge_constraints ::
  "project_parameters \<Rightarrow> sets \<Rightarrow> dataset \<Rightarrow> constraints \<Rightarrow> py_error + constraints" where
  "add_tes_state_of_charge_constraints settings S param model =
     ebind (py_index (years S) 0) (\<lambda>first_year.
     ebind (py_index (periods S) 0) (\<lambda>first_period.
     ebind (py_index (periods S) (- 1)) (\<lambda>last_period.
     let delta_time = item (param ''DELTA_TIME'');
         tes_capacity = item (param ''TES_CAPACITY'');
         tes_initial_soc_fraction = item (param ''TES_INITIAL_SOC'')
     in
     ebind
       (for_each (years S) (\<lambda>y.
          for_each (periods S)
            (tes_soc_body settings S first_year first_period last_period delta_time tes_capacity
               tes_initial_soc_fraction y))
          model)
       (\<lambda>m. Inr (fold (tes_soc_bounds_body tes_capacity) (years S) m)))))"

text \<open>
  \<open>add_tes_flow_constraints\<close>. The body of the loop over years is \<open>tes_flow_year_body\<close>
  and the body of its inner loop over periods is \<open>tes_flow_period_body\<close>.
\<close>

definition tes_flow_period_body ::
  "real \<Rightarrow> real \<Rightarrow> int \<Rightarrow> int \<Rightarrow> constraints \<Rightarrow> constraints" where
  "tes_flow_period_body M_charge M_discharge y p model =
     (let mode = var ''tes_mode'' [Years y, Periods p];
          m1 = add_constraints
                 (''TES Charge Allowed - Year {year} Period {period}'', [Years y, Periods p])
                 (var ''tes_charge'' [Years y, Periods p]) LE
                 (emul (num M_charge) mode) model
      in add_constraints
           (''TES Discharge Allowed - Year {year} Period {period}'', [Years y, Periods p])
           (var ''tes_discharge'' [Years y, Periods p]) LE
           (emul (num M_discharge) (esub (eadd (emul mode (num 0)) (num 1)) mode)) m1)"

definition tes_flow_year_body ::
  "sets \<Rightarrow> array \<Rightarrow> array \<Rightarrow> real \<Rightarrow> real \<Rightarrow> int \<Rightarrow> constraints \<Rightarrow> constraints" where
  "tes_flow_year_body S max_charge_rate max_discharge_rate M_charge M_discharge y model =
     (let m1 = add_constraints (''TES Maximum Charge Flow Constraint - Year {year}'', [Years y])
                 (var ''tes_charge'' [Years y]) LE (const max_charge_rate) model;
          m2 = add_constraints (''TES Maximum Discharge Flow Constraint - Year {year}'', [Years y])
                 (var ''tes_discharge'' [Years y]) LE (const max_discharge_rate) m1;
          m3 = add_constraints (''TES Minimum Charge Flow Constraint - Year {year}'', [Years y])
                 (var ''tes_charge'' [Years y]) GE (num 0) m2;
          m4 = add_constraints (''TES Minimum Discharge Flow Constraint - Year {year}'', [Years y])
                 (var ''tes_discharge'' [Years y]) GE (num 0) m3
      in fold (tes_flow_period_body M_charge M_discharge y) (periods S) m4)"

definition add_tes_flow_constraints ::
  "project_parameters \<Rightarrow> sets \<Rightarrow> dataset \<Rightarrow> constraints \<Rightarrow> py_error + constraints" where
  "add_tes_flow_constraints settings S param model =
     (let max_charge_rate = param ''TES_MAX_CHARGE_RATE'';
          max_discharge_rate = param ''TES_MAX_DISCHARGE_RATE'';
          delta_time = item (param ''DELTA_TIME'');
          tes_capacity = item (param ''TES_CAPACITY'')
      in
      ebind (py_truediv tes_capacity delta_time) (\<lambda>M_charge.
      ebind (py_truediv tes_capacity delta_time) (\<lambda>M_discharge.
      Inr (fold (tes_flow_year_body S max_charge_rate max_discharge_rate M_charge M_discharge)
             (years S) model))))"

section \<open>Generators (model/constraints/generator\_constraints.py)\<close>

text \<open>
  The list comprehension \<open>years_steps_tuples\<close> and the lookup
  \<open>years_steps_tuples[year - years[0]][1]\<close> of the step of a year. The first component
  of a tuple is \<open>(years[i] - years[0]) + 1\<close> in generator\_constraints.py and
  \<open>years[i] - years[0]\<close> in energy\_balance.py: \<open>k\<close> is 1 or 0.
\<close>

definition years_steps_tuples :: "int \<Rightarrow> sets \<Rightarrow> int \<Rightarrow> py_error + (int \<times> int) list" where
  "years_steps_tuples k S step_dur =
     emap (\<lambda>i.
        ebind (py_index (years S) i) (\<lambda>yi.
        ebind (py_index (years S) 0) (\<lambda>y0.
        ebind (py_floordiv i step_dur) (\<lambda>q.
        ebind (py_index (steps S) q) (\<lambda>s.
        Inr ((yi - y0) + k, s))))))
       (map int [0..<length (years S)])"

definition step_of_year :: "sets \<Rightarrow> (int \<times> int) list \<Rightarrow> int \<Rightarrow> py_error + int" where
  "step_of_year S tuples y =
     ebind (py_index (years S) 0) (\<lambda>y0.
     ebind (py_index tuples (y - y0)) (\<lambda>t. Inr (snd t)))"

text \<open>
  \<open>add_generator_max_energy_production_constraint\<close>. \<open>brownfield_gen_body\<close> is the body
  of the loop over generator types and \<open>brownfield_year_body\<close> the body of the loop over
  years.
\<close>

definition brownfield_gen_body ::
  "sets \<Rightarrow> dataset \<Rightarrow> int \<Rightarrow> int \<Rightarrow> string \<Rightarrow> constraints \<Rightarrow> py_error + constraints" where
  "brownfield_gen_body S param y stp gen model =
     ebind (py_index (years S) 0) (\<lambda>y0.
     let total_age = (\<lambda>c. asel [Generator_types gen] (param ''GENERATOR_EXISTING_YEARS'') c
                            + real_of_int (y - y0));
         lifetime_exceeded =
           item (\<lambda>c. if total_age c > asel [Generator_types gen] (param ''GENERATOR_LIFETIME'') c
                      then 1 else 0) \<noteq> 0;
         max_production =
           esel [Generator_types gen]
             (emul (var ''generator_units'' [Steps stp]) (const (param ''GENERATOR_NOMINAL_CAPACITY'')));
         max_production' =
           (if \<not> lifetime_exceeded then
              eadd max_production
                (const (asel [Generator_types gen] (param ''GENERATOR_EXISTING_CAPACITY'')))
            else max_production)
     in Inr (add_constraints
               (''Generator Energy Production Constraint - Year {year}, Type {gen}'',
                [Years y, Generator_types gen])
               (var ''generator_energy_production'' [Years y, Generator_types gen]) LE max_production'
               model))"

definition brownfield_year_body ::
  "sets \<Rightarrow> dataset \<Rightarrow> (int \<times> int) list \<Rightarrow> int \<Rightarrow> constraints \<Rightarrow> py_error + constraints" where
  "brownfield_year_body S param tuples y model =
     ebind (step_of_year S tuples y) (\<lambda>stp.
       for_each (generator_types S) (brownfield_gen_body S param y stp) model)"

definition add_generator_max_energy_production_constraint ::
  "project_parameters \<Rightarrow> sets \<Rightarrow> dataset \<Rightarrow> constraints \<Rightarrow> py_error + constraints" where
  "add_generator_max_energy_production_constraint settings S param model =
     (if brownfield (advanced settings) then
        ebind (years_steps_tuples 1 S (step_duration (advanced settings))) (\<lambda>tuples.
          for_each (years S) (brownfield_year_body S param tuples) model)
      else
        Inr (add_constraints (''Generator Energy Production Constraint'', [])
               (var ''generator_energy_production'' []) LE
               (emul (var ''generator_units'' []) (const (param ''GENERATOR_NOMINAL_CAPACITY'')))
               model))"

text \<open>
  \<open>add_generator_fuel_consumption_constraints\<close>.

  \<open>GENERATOR_SAMPLED_RELATIVE_OUTPUT\<close> has the dimensions (generator types, sample
  points): the function reads \<open>shape[1]\<close> as the number of sample points, passed here as
  \<open>n_samples\<close>, and the settings hold one list of sampled outputs per generator. The
  function selects only the sample point on it, so \<open>p0\<close>, \<open>p1\<close>, \<open>fc0\<close>, \<open>fc1\<close> are
  arrays over the generator types. \<open>if (p1 - p0) != 0\<close> takes the truth value of such an
  array: that of its one element when there is one generator type, \<open>False\<close> when there is
  none, and \<open>ValueError\<close> when there are several.
\<close>

definition truth_value :: "sets \<Rightarrow> (coords \<Rightarrow> bool) \<Rightarrow> py_error + bool" where
  "truth_value S a =
     (case generator_types S of
        [] \<Rightarrow> Inr False
      | [g] \<Rightarrow> Inr (a (select (Generator_types g) origin))
      | _ \<Rightarrow> Inl ValueError)"

definition partial_load_segment_body ::
  "sets \<Rightarrow> dataset \<Rightarrow> int \<Rightarrow> int \<Rightarrow> string \<Rightarrow> int \<Rightarrow> constraints \<Rightarrow> py_error + constraints" where
  "partial_load_segment_body S param y stp gen seg model =
     (let p0 = (\<lambda>c. asel [Sample_points seg] (param ''GENERATOR_SAMPLED_RELATIVE_OUTPUT'') c
                     * asel [Generator_types gen] (param ''GENERATOR_NOMINAL_CAPACITY'') c);
          p1 = (\<lambda>c. asel [Sample_points (seg + 1)] (param ''GENERATOR_SAMPLED_RELATIVE_OUTPUT'') c
                     * asel [Generator_types gen] (param ''GENERATOR_NOMINAL_CAPACITY'') c);
          fc0 = (\<lambda>c. p0 c
                      / (asel [Sample_points seg, Generator_types gen]
                           (param ''GENERATOR_SAMPLED_EFFICIENCY'') c
                         * asel [Generator_types gen] (param ''FUEL_LHV'') c));
          fc1 = (\<lambda>c. p1 c
                      / (asel [Sample_points (seg + 1), Generator_types gen]
                           (param ''GENERATOR_SAMPLED_EFFICIENCY'') c
                         * asel [Generator_types gen] (param ''FUEL_LHV'') c))
      in ebind (truth_value S (\<lambda>c. p1 c - p0 c \<noteq> 0)) (\<lambda>nonzero.
         let slope = (if nonzero then (\<lambda>c. (fc1 c - fc0 c) / (p1 c - p0 c)) else (\<lambda>c. 0))
         in Inr (add_constraints
                   (''Partial Load Constraint - Segment {seg}, Year {year}, Type {gen}'',
                    [Sample_points seg, Years y, Generator_types gen])
                   (var ''generator_fuel_consumption'' [Years y, Generator_types gen]) GE
                   (eadd
                      (emul (const slope)
                         (esub (var ''generator_energy_production'' [Years y, Generator_types gen])
                               (emul (const p0) (var ''generator_units'' [Steps stp, Generator_types gen]))))
                      (emul (const fc0) (var ''generator_units'' [Steps stp, Generator_types gen])))
                   model)))"

definition fuel_gen_body ::
  "project_parameters \<Rightarrow> sets \<Rightarrow> dataset \<Rightarrow> nat \<Rightarrow> int \<Rightarrow> int \<Rightarrow> string \<Rightarrow> constraints
     \<Rightarrow> py_error + constraints" where
  "fuel_gen_body settings S param n_samples y stp gen model =
     (let gen_energy = var ''generator_energy_production'' [Years y, Generator_types gen];
          gen_fuel_consumption = var ''generator_fuel_consumption'' [Years y, Generator_types gen]
      in if partial_load settings = False then
           (let nominal_efficiency = asel [Generator_types gen] (param ''GENERATOR_NOMINAL_EFFICIENCY'');
                fuel_lhv = asel [Generator_types gen] (param ''FUEL_LHV'')
            in Inr (add_constraints
                      (''Fuel Consumption Constraint - Year {year}, Type {gen}'',
                       [Years y, Generator_types gen])
                      gen_fuel_consumption EQ
                      (ediv gen_energy (const (\<lambda>c. nominal_efficiency c * fuel_lhv c)))
                      model))
         else
           for_each (map int [0..<n_samples - 1])
             (partial_load_segment_body S param y stp gen) model)"

definition fuel_year_body ::
  "project_parameters \<Rightarrow> sets \<Rightarrow> dataset \<Rightarrow> nat \<Rightarrow> (int \<times> int) list \<Rightarrow> int \<Rightarrow> constraints
     \<Rightarrow> py_error + constraints" where
  "fuel_year_body settings S param n_samples tuples y model =
     ebind (step_of_year S tuples y) (\<lambda>stp.
       for_each (generator_types S) (fuel_gen_body settings S param n_samples y stp) model)"

definition add_generator_fuel_consumption_constraints ::
  "project_parameters \<Rightarrow> sets \<Rightarrow> dataset \<Rightarrow> nat \<Rightarrow> constraints \<Rightarrow> py_error + constraints" where
  "add_generator_fuel_consumption_constraints settings S param n_samples model =
     ebind (years_steps_tuples 1 S (step_duration (advanced settings))) (\<lambda>tuples.
       for_each (years S) (fuel_year_body settings S param n_samples tuples) model)"

text \<open>\<open>add_generator_capacity_expansion_constraints\<close>, over \<open>steps[1:]\<close>.\<close>

definition capacity_expansion_body :: "sets \<Rightarrow> int \<Rightarrow> constraints \<Rightarrow> py_error + constraints" where
  "capacity_expansion_body S stp model =
     ebind (check_label (stp - 1) (steps S)) (\<lambda>_.
       Inr (add_constraints (''Generator Min Step Units Constraint - Step {step}'', [Steps stp])
              (var ''generator_units'' [Steps stp]) GE (var ''generator_units'' [Steps (stp - 1)])
              model))"

definition add_generator_capacity_expansion_constraints ::
  "sets \<Rightarrow> constraints \<Rightarrow> py_error + constraints" where
  "add_generator_capacity_expansion_constraints S model =
     for_each (drop 1 (steps S)) (capacity_expansion_body S) model"

definition add_generator_constraints ::
  "project_parameters \<Rightarrow> sets \<Rightarrow> dataset \<Rightarrow> nat \<Rightarrow> constraints \<Rightarrow> py_error + constraints" where
  "add_generator_constraints settings S param n_samples model =
     ebind (add_generator_max_energy_production_constraint settings S param model) (\<lambda>m1.
     ebind (add_generator_fuel_consumption_constraints settings S param n_samples m1) (\<lambda>m2.
     if capacity_expansion (advanced settings) then
       add_generator_capacity_expansion_constraints S m2
     else Inr m2))"

section \<open>Energy balance (model/constraints/energy\_balance.py)\<close>

text \<open>
  The module is embedded from its history snapshot \<open>energy_balance_20250502144607.py\<close>,
  whose \<open>add_energy_balance_constraints\<close> takes the three flags \<open>has_battery\<close>,
  \<open>has_generator\<close> and \<open>has_grid_connection\<close>. \<open>Model._add_constraints\<close> in
  \<open>model/model.py\<close> calls the function of the current module with the two further flags
  \<open>has_compressor\<close> and \<open>has_tes\<close>; that later version is not among the sources.

  A constraint whose left-hand side holds no variable is refused by linopy with a
  \<open>ValueError\<close>, and that refusal is not part of the model. Every system configuration of
  \<open>Model\<close> has renewable sources, and the statements about the balance are made for a
  project with at least one renewable source, where the left-hand side of the balance
  holds a variable.
\<close>
















section \<open>Solving and the Pareto sweep (model/model.py)\<close>

text \<open>
  The values read from a solution are numpy float64 scalars. \<open>Finite a\<close> is the float64 of
  value \<open>a\<close>, and \<open>NonFinite\<close> stands for \<open>inf\<close>, \<open>-inf\<close> and \<open>nan\<close>: numpy raises nothing on
  a division by zero or on an overflow, and each operation used by the sweep takes a
  non-finite operand to a non-finite result. The two zeros are not told apart.
\<close>

datatype npfloat = Finite real | NonFinite

text \<open>
  Float64 arithmetic returns the exact result rounded to the nearest float64, a tie going
  to the neighbour whose significand is even. \<open>binary_exponent x\<close> is the integer \<open>e\<close> with
  \<open>2^e <= |x| < 2^(e+1)\<close>. The float64 values around \<open>x\<close> are the multiples of \<open>2^q\<close>, where
  \<open>q = e - 52\<close> for a normal number and \<open>q = -1074\<close> for a subnormal one; \<open>nearest64 x\<close> is
  the nearest of them. A rounded magnitude of \<open>2^1024\<close> or more is beyond the largest
  float64: the result of an operation is then \<open>inf\<close>.
\<close>

definition round_half_even :: "real \<Rightarrow> int" where
  "round_half_even x =
     (let n = \<lfloor>x\<rfloor>; r = x - of_int n
      in if r < 1 / 2 then n else if 1 / 2 < r then n + 1 else if even n then n else n + 1)"

definition binary_exponent :: "real \<Rightarrow> int" where
  "binary_exponent x =
     (if 1 \<le> \<bar>x\<bar> then bitlen \<lfloor>\<bar>x\<bar>\<rfloor> - 1 else - bitlen (\<lceil>1 / \<bar>x\<bar>\<rceil> - 1))"

definition nearest64 :: "real \<Rightarrow> real" where
  "nearest64 x =
     (if x = 0 then 0
      else let q = max (binary_exponent x - 52) (- 1074)
           in of_int (round_half_even (x / 2 powi q)) * 2 powi q)"

definition round64 :: "real \<Rightarrow> npfloat" where
  "round64 x = (let y = nearest64 x in if 2 powi 1024 \<le> \<bar>y\<bar> then NonFinite else Finite y)"

text \<open>The real \<open>a\<close> is the value of a finite float64.\<close>

definition float64 :: "real \<Rightarrow> bool" where
  "float64 a = (round64 a = Finite a)"

text \<open>
  A Python int that meets a float64 in an operation is converted to float64 first. The
  conversion rounds in the same way, and raises \<open>OverflowError\<close> for an int that is beyond
  the largest float64.
\<close>

definition float64_of_int :: "int \<Rightarrow> py_error + real" where
  "float64_of_int k =
     (let y = nearest64 (of_int k) in if 2 powi 1024 \<le> \<bar>y\<bar> then Inl OverflowError else Inr y)"

text \<open>
  The four operations of the sweep. The second operand of \<open>np_div\<close> and the first of
  \<open>np_mul\<close> are converted ints, hence finite.
\<close>

fun np_add :: "npfloat \<Rightarrow> npfloat \<Rightarrow> npfloat" where
  "np_add (Finite a) (Finite b) = round64 (a + b)"
| "np_add _ _ = NonFinite"

fun np_sub :: "npfloat \<Rightarrow> npfloat \<Rightarrow> npfloat" where
  "np_sub (Finite a) (Finite b) = round64 (a - b)"
| "np_sub _ _ = NonFinite"

fun np_div :: "npfloat \<Rightarrow> real \<Rightarrow> npfloat" where
  "np_div (Finite a) b = (if b = 0 then NonFinite else round64 (a / b))"
| "np_div NonFinite b = NonFinite"

fun np_mul :: "real \<Rightarrow> npfloat \<Rightarrow> npfloat" where
  "np_mul b (Finite a) = round64 (b * a)"
| "np_mul b NonFinite = NonFinite"

text \<open>
  A constraint \<open>total_emissions <= emission_threshold\<close> added by the sweep under the name
  \<open>co2_threshold_{i}\<close>: the index \<open>i\<close> of the name, the left-hand side, the sense and the
  float64 on the right-hand side.
\<close>

record threshold_constraint =
  threshold_index :: int
  threshold_lhs :: expr
  threshold_sense :: sense
  threshold_rhs :: npfloat

text \<open>
  The \<open>linopy.Model\<close> held by \<open>Model\<close>: the constraints of the build, the objective last
  set, and the constraints added by the sweep. \<open>add_objective\<close> sets the objective: its
  first call follows the build of a model that has none, and the later calls pass
  \<open>overwrite=True\<close>.
\<close>

record linopy_model =
  built_constraints :: constraints
  objective :: "expr option"
  co2_thresholds :: "threshold_constraint list"

definition add_objective :: "expr \<Rightarrow> linopy_model \<Rightarrow> linopy_model" where
  "add_objective e m = m\<lparr>objective := Some e\<rparr>"

text \<open>\<open>self.model.add_constraints(total_emissions <= emission_threshold, name=f"co2_threshold_{i}")\<close>.\<close>

definition add_co2_threshold :: "int \<Rightarrow> expr \<Rightarrow> npfloat \<Rightarrow> linopy_model \<Rightarrow> linopy_model" where
  "add_co2_threshold i emissions emission_threshold m =
     m\<lparr>co2_thresholds :=
         co2_thresholds m @
         [\<lparr>threshold_index = i, threshold_lhs = emissions, threshold_sense = LE,
           threshold_rhs = emission_threshold\<rparr>]\<rparr>"

text \<open>\<open>self.model.remove_constraints(f"co2_threshold_{i}")\<close>.\<close>

definition remove_co2_threshold :: "int \<Rightarrow> linopy_model \<Rightarrow> linopy_model" where
  "remove_co2_threshold i m =
     m\<lparr>co2_thresholds := filter (\<lambda>k. threshold_index k \<noteq> i) (co2_thresholds m)\<rparr>"

text \<open>
  A solution maps the names of its scalar outputs to their values. The solver is a
  function of the model: it returns a solution or raises with a message. \<open>available\<close> is
  \<open>solver in linopy.available_solvers\<close>.
\<close>

type_synonym solution = "string \<rightharpoonup> npfloat"

type_synonym solver = "linopy_model \<Rightarrow> string + solution"

text \<open>
  \<open>Model._solve\<close>: \<open>None\<close> when the solver is not available, \<open>RuntimeError\<close> when the
  solver raises. The handling of the two file paths and the merge of \<open>THERMAL_DEMAND\<close> into
  the solution catch their own exceptions and leave the scalar outputs as they are.
\<close>

definition solve :: "bool \<Rightarrow> solver \<Rightarrow> linopy_model \<Rightarrow> py_error + solution option" where
  "solve available run m =
     (if \<not> available then Inr None
      else case run m of
             Inl e \<Rightarrow> Inl (RuntimeError (''Error during solving: '' @ e))
           | Inr sol \<Rightarrow> Inr (Some sol))"

text \<open>\<open>solution.get(name).values\<close>: \<open>AttributeError\<close> on \<open>None\<close>.\<close>

definition get_values :: "solution option \<Rightarrow> string \<Rightarrow> py_error + npfloat" where
  "get_values sol n =
     (case sol of
        None \<Rightarrow> Inl AttributeError
      | Some s \<Rightarrow> (case s n of None \<Rightarrow> Inl AttributeError | Some x \<Rightarrow> Inr x))"

text \<open>
  \<open>(var[name] * SCENARIO_WEIGHTS).sum('scenarios')\<close>, the shape of the three objectives
  and of \<open>total_emissions\<close>.
\<close>

definition weighted_sum :: "sets \<Rightarrow> dataset \<Rightarrow> string \<Rightarrow> expr" where
  "weighted_sum S param n =
     esum Scenarios (scenarios S) (emul (var n []) (const (param ''SCENARIO_WEIGHTS'')))"

text \<open>
  The state of the sweep: the model, and the lists \<open>solutions\<close>, \<open>npc_values\<close> and
  \<open>co2_values\<close>. A call returns the model as it is left together with the exception or the
  lists.
\<close>

type_synonym sweep_lists = "solution option list \<times> npfloat list \<times> npfloat list"

definition sweep_body ::
  "sets \<Rightarrow> dataset \<Rightarrow> bool \<Rightarrow> solver \<Rightarrow> expr \<Rightarrow> string \<Rightarrow> npfloat \<Rightarrow> npfloat \<Rightarrow> int
     \<Rightarrow> linopy_model \<times> sweep_lists \<Rightarrow> linopy_model \<times> (py_error + sweep_lists)" where
  "sweep_body S param available run cost_objective cost_objective_variable min_co2 emission_step
       i st =
     (case st of (m, solutions, npc_values, co2_values) \<Rightarrow>
        case float64_of_int i of
          Inl e \<Rightarrow> (m, Inl e)
        | Inr factor \<Rightarrow>
        let emission_threshold = np_add min_co2 (np_mul factor emission_step);
            total_emissions = weighted_sum S param ''scenario_co2_emission'';
            m1 = add_co2_threshold i total_emissions emission_threshold m;
            m2 = add_objective cost_objective m1
        in case solve available run m2 of
             Inl e \<Rightarrow> (m2, Inl e)
           | Inr sol \<Rightarrow>
               (case get_values sol cost_objective_variable of
                  Inl e \<Rightarrow> (m2, Inl e)
                | Inr npc \<Rightarrow>
                    (remove_co2_threshold i m2,
                     Inr (solutions @ [sol], npc_values @ [npc], co2_values @ [emission_threshold]))))"

fun sweep ::
  "(int \<Rightarrow> linopy_model \<times> sweep_lists \<Rightarrow> linopy_model \<times> (py_error + sweep_lists))
     \<Rightarrow> int list \<Rightarrow> linopy_model \<times> sweep_lists \<Rightarrow> linopy_model \<times> (py_error + sweep_lists)" where
  "sweep body [] st = (fst st, Inr (snd st))"
| "sweep body (i # is) st =
     (case body i st of
        (m, Inl e) \<Rightarrow> (m, Inl e)
      | (m, Inr acc) \<Rightarrow> sweep body is (m, acc))"

text \<open>
  \<open>Model.solve_multi_objective\<close>. \<open>build\<close> is the outcome of \<open>self._build()\<close>: an exception,
  or the constraints of the built model. The result is the model as it is left, and the
  exception or the pair of the Pareto list and the solutions. \<open>divisor\<close> is
  \<open>num_points - 1\<close> as the division converts it, and \<open>factor\<close> in the body of the sweep
  is \<open>i\<close> as the product converts it.
\<close>

definition solve_multi_objective ::
  "project_parameters \<Rightarrow> sets \<Rightarrow> dataset \<Rightarrow> py_error + constraints \<Rightarrow> int \<Rightarrow> bool \<Rightarrow> solver
     \<Rightarrow> linopy_model \<Rightarrow> linopy_model \<times> (py_error + (npfloat \<times> npfloat) list \<times> solution option list)" where
  "solve_multi_objective settings S param build num_points available run model0 =
     (case build of
        Inl e \<Rightarrow> (model0, Inl e)
      | Inr built \<Rightarrow>
     let m0 = model0\<lparr>built_constraints := built\<rparr>;
         cost_objective =
           (if optimization_goal (project settings) = 0
            then weighted_sum S param ''scenario_net_present_cost''
            else weighted_sum S param ''total_scenario_variable_cost_nonact'');
         cost_objective_variable =
           (if optimization_goal (project settings) = 0
            then ''Net Present Cost'' else ''Total Variable Cost'');
         m1 = add_objective cost_objective m0
     in case solve available run m1 of
          Inl e \<Rightarrow> (m1, Inl e)
        | Inr solution1 \<Rightarrow>
     (case get_values solution1 ''Total CO2 Emissions'' of
          Inl e \<Rightarrow> (m1, Inl e)
        | Inr max_co2 \<Rightarrow>
     let emissions_objective = weighted_sum S param ''scenario_co2_emission'';
         m2 = add_objective emissions_objective m1
     in case solve available run m2 of
          Inl e \<Rightarrow> (m2, Inl e)
        | Inr solution2 \<Rightarrow>
     (case get_values solution2 ''Total CO2 Emissions'' of
          Inl e \<Rightarrow> (m2, Inl e)
        | Inr min_co2 \<Rightarrow>
     (case float64_of_int (num_points - 1) of
          Inl e \<Rightarrow> (m2, Inl e)
        | Inr divisor \<Rightarrow>
     let emission_step = np_div (np_sub max_co2 min_co2) divisor
     in case sweep (sweep_body S param available run cost_objective cost_objective_variable
                      min_co2 emission_step)
               [0..num_points - 1] (m2, [solution1, solution2], [], []) of
          (m, Inl e) \<Rightarrow> (m, Inl e)
        | (m, Inr (solutions, npc_values, co2_values)) \<Rightarrow>
            (m, Inr (zip co2_values npc_values, solutions))))))"

section \<open>Reading a model\<close>

text \<open>
  The model holds a constraint of the given name, sense and two sides. The sides are
  compared as functions of the assignment and the coordinate tuple.
\<close>

definition has_constraint :: "constraints \<Rightarrow> cname \<Rightarrow> expr \<Rightarrow> sense \<Rightarrow> expr \<Rightarrow> bool" where
  "has_constraint m n l s r = (\<exists>k \<in> set m. cname k = n \<and> lhs k = l \<and> sense k = s \<and> rhs k = r)"


section \<open>A small project used to instantiate the theorems\<close>

definition example_advanced :: advanced_settings where
  "example_advanced =
     \<lparr>wacc_calculation = 1, equity_share = 1 / 2, debt_share = 1 / 2, cost_of_debt = 1 / 10,
      tax = 1 / 5, cost_of_equity = 3 / 20, brownfield = True, capacity_expansion = True,
      step_duration = 1, milp_formulation = True, grid_connection_type = 1\<rparr>"

definition example_project :: project_settings where
  "example_project =
     \<lparr>discount_rate = 1 / 10, lost_load_fraction = 1 / 100, renewable_penetration = 0,
      optimization_goal = 0\<rparr>"

definition example_settings :: project_parameters where
  "example_settings =
     \<lparr>advanced = example_advanced, project = example_project, partial_load = True,
      tes_storage_efficiency = (\<lambda>y p. 9 / 10)\<rparr>"

definition example_sets :: sets where
  "example_sets =
     \<lparr>years = [2020, 2021], steps = [1, 2], periods = [1, 2], scenarios = [1],
      renewable_sources = [''pv''], generator_types = [''diesel'']\<rparr>"

definition example_param :: dataset where
  "example_param n =
     (if n = ''DELTA_TIME'' then (\<lambda>c. 1)
      else if n = ''TES_CAPACITY'' then (\<lambda>c. 100)
      else if n = ''TES_INITIAL_SOC'' then (\<lambda>c. 1 / 2)
      else (\<lambda>c. 1))"

definition example_assignment :: assignment where
  "example_assignment n =
     (if n = ''tes_mode'' then (\<lambda>c. 1)
      else if n = ''tes_charge'' then (\<lambda>c. 1 / 2)
      else (\<lambda>c. 0))"

definition example_grid :: "coords list" where
  "example_grid = [origin\<lparr>period := 1\<rparr>, origin\<lparr>period := 2\<rparr>]"

text \<open>A brownfield generator of age 9 with a lifetime of 10 years, over the years 0 to 5.\<close>

definition brownfield_settings :: project_parameters where
  "brownfield_settings = example_settings\<lparr>advanced := example_advanced\<lparr>step_duration := 6\<rparr>\<rparr>"

definition brownfield_sets :: sets where
  "brownfield_sets =
     \<lparr>years = [0, 1, 2, 3, 4, 5], steps = [1], periods = [1], scenarios = [1],
      renewable_sources = [''pv''], generator_types = [''diesel'']\<rparr>"

definition brownfield_param :: dataset where
  "brownfield_param n =
     (if n = ''GENERATOR_EXISTING_YEARS'' then (\<lambda>c. 9)
      else if n = ''GENERATOR_LIFETIME'' then (\<lambda>c. 10)
      else if n = ''GENERATOR_EXISTING_CAPACITY'' then (\<lambda>c. 50)
      else if n = ''GENERATOR_NOMINAL_CAPACITY'' then (\<lambda>c. 20)
      else (\<lambda>c. 1))"

definition generator_assignment :: assignment where
  "generator_assignment n =
     (if n = ''generator_units'' then (\<lambda>c. real_of_int (step c))
      else if n = ''generator_fuel_consumption'' then (\<lambda>c. 2)
      else (\<lambda>c. 0))"

text \<open>The example project with a second generator type.\<close>

definition two_generator_sets :: sets where
  "two_generator_sets = example_sets\<lparr>generator_types := [''diesel'', ''gas'']\<rparr>"

text \<open>
  A solver for the example. It tells the emissions objective from a cost objective by its
  value under an assignment in which only \<open>scenario_co2_emission\<close> is nonzero. Minimising
  emissions yields 4, minimising cost without a threshold yields emissions of 10 at a cost
  of 100, and under a threshold \<open>t\<close> the cost is \<open>110 - t\<close>.
\<close>

definition probe :: assignment where
  "probe n = (if n = ''scenario_co2_emission'' then (\<lambda>c. 1) else (\<lambda>c. 0))"

definition example_solver :: solver where
  "example_solver m =
     (case objective m of
        None \<Rightarrow> Inl ''no objective''
      | Some e \<Rightarrow>
          if e probe origin = 1 then
            Inr [''Total CO2 Emissions'' \<mapsto> Finite 4, ''Net Present Cost'' \<mapsto> Finite 500]
          else
            (case co2_thresholds m of
               [] \<Rightarrow> Inr [''Total CO2 Emissions'' \<mapsto> Finite 10, ''Net Present Cost'' \<mapsto> Finite 100]
             | k # _ \<Rightarrow>
                 Inr [''Total CO2 Emissions'' \<mapsto> threshold_rhs k,
                      ''Net Present Cost'' \<mapsto> np_sub (Finite 110) (threshold_rhs k)]))"

text \<open>The same solver, raising on the model that holds \<open>co2_threshold_1\<close>.\<close>

definition failing_solver :: solver where
  "failing_solver m =
     (if list_ex (\<lambda>k. threshold_index k = 1) (co2_thresholds m) then Inl ''infeasible''
      else example_solver m)"

text \<open>
  A solver whose anchor solutions have the emissions \<open>25298.56\<close> and \<open>1610.009\<close>, the
  float64 values that Python reads from these two literals, and whose cost is 100 under
  every threshold.
\<close>

definition rounding_solver :: solver where
  "rounding_solver m =
     (case objective m of
        None \<Rightarrow> Inl ''no objective''
      | Some e \<Rightarrow>
          if e probe origin = 1 then
            Inr [''Total CO2 Emissions'' \<mapsto> round64 1610.009, ''Net Present Cost'' \<mapsto> Finite 500]
          else
            (case co2_thresholds m of
               [] \<Rightarrow> Inr [''Total CO2 Emissions'' \<mapsto> round64 25298.56,
                          ''Net Present Cost'' \<mapsto> Finite 100]
             | k # _ \<Rightarrow>
                 Inr [''Total CO2 Emissions'' \<mapsto> threshold_rhs k,
                      ''Net Present Cost'' \<mapsto> Finite 100]))"

definition empty_model :: linopy_model where
  "empty_model = \<lparr>built_constraints = [], objective = None, co2_thresholds = []\<rparr>"




section \<open>Loops, indexing and membership of constraints\<close>

lemma for_each_appends:
  assumes "\<And>x m. x \<in> set xs \<Longrightarrow> body x m = Inr (m @ g x)"
  shows "for_each xs body m = Inr (m @ concat (map g xs))"
  using assms
proof (induction xs arbitrary: m)
  case Nil
  then show ?case by simp
next
  case (Cons x xs)
  have "body x m = Inr (m @ g x)" using Cons.prems by simp
  moreover have "for_each xs body (m @ g x) = Inr ((m @ g x) @ concat (map g xs))"
    using Cons.IH Cons.prems by simp
  ultimately show ?case by (simp add: ebind_def)
qed

lemma fold_appends:
  assumes "\<And>x m. x \<in> set xs \<Longrightarrow> f x m = m @ g x"
  shows "fold f xs m = m @ concat (map g xs)"
  using assms
  by (induction xs arbitrary: m) simp_all

lemma py_index_upto_first: "i \<le> j \<Longrightarrow> py_index [i..j] 0 = Inr i"
  by (simp add: py_index_def upto.simps)

lemma py_index_upto_last: "i \<le> j \<Longrightarrow> py_index [i..j] (- 1) = Inr j"
  by (simp add: py_index_def nat_diff_distrib)

lemma sel_simps [simp]: "sel [] c = c" "sel (s # ss) c = sel ss (select s c)"
  by (simp_all add: sel_def)

lemma has_constraint_append:
  "has_constraint m n l s r \<or> has_constraint m' n l s r \<Longrightarrow> has_constraint (m @ m') n l s r"
  by (auto simp: has_constraint_def)

lemma has_constraint_concat:
  "x \<in> set xs \<Longrightarrow> has_constraint (g x) n l s r \<Longrightarrow> has_constraint (concat (map g xs)) n l s r"
  by (auto simp: has_constraint_def)

lemma has_constraint_Cons:
  "(cname k = n \<and> lhs k = l \<and> sense k = s \<and> rhs k = r) \<or> has_constraint ks n l s r
     \<Longrightarrow> has_constraint (k # ks) n l s r"
  by (auto simp: has_constraint_def)

lemma feasible_has_constraint:
  "feasible v grid m \<Longrightarrow> has_constraint m n l s r \<Longrightarrow> c \<in> set grid \<Longrightarrow>
     (case s of EQ \<Rightarrow> l v c = r v c | LE \<Rightarrow> l v c \<le> r v c | GE \<Rightarrow> l v c \<ge> r v c)"
  by (auto simp: feasible_def has_constraint_def list_all_iff holds_def)

lemmas expr_defs = var_def num_def const_def eadd_def esub_def emul_def ediv_def esel_def

lemma emap_maps:
  assumes "\<And>x. x \<in> set xs \<Longrightarrow> f x = Inr (g x)"
  shows "emap f xs = Inr (map g xs)"
  using assms by (induction xs) (simp_all add: ebind_def)

lemma py_index_upto_nth:
  assumes "0 \<le> k" "i + k \<le> j"
  shows "py_index [i..j] k = Inr (i + k)"
  using assms by (simp add: py_index_def)

lemma py_index_in_range:
  assumes "0 \<le> k" "k < int (length xs)"
  shows "py_index xs k = Inr (xs ! nat k)"
  using assms by (simp add: py_index_def)

lemma years_steps_tuples_consecutive:
  assumes ys: "years S = [y0..y1]" "y0 \<le> y1"
      and d: "0 < d"
      and st: "(y1 - y0) div d < int (length (steps S))"
  shows "years_steps_tuples k S d
           = Inr (map (\<lambda>i. (i + k, steps S ! nat (i div d))) (map int [0..<nat (y1 - y0 + 1)]))"
proof -
  have "ebind (py_index (years S) i) (\<lambda>yi.
        ebind (py_index (years S) 0) (\<lambda>y0.
        ebind (py_floordiv i d) (\<lambda>q.
        ebind (py_index (steps S) q) (\<lambda>s.
        Inr ((yi - y0) + k, s))))) = Inr (i + k, steps S ! nat (i div d))"
    if "i \<in> set (map int [0..<nat (y1 - y0 + 1)])" for i
  proof -
    from that have i: "0 \<le> i" "i \<le> y1 - y0" by auto
    have 1: "py_index (years S) i = Inr (y0 + i)"
      using i by (simp add: ys py_index_upto_nth)
    have 2: "py_index (years S) 0 = Inr y0"
      using ys by (simp add: py_index_upto_first)
    have 3: "py_floordiv i d = Inr (i div d)"
      using d by (simp add: py_floordiv_def)
    have "i div d \<le> (y1 - y0) div d" using i d by (simp add: zdiv_mono1)
    moreover have "0 \<le> i div d" using i d by (simp add: pos_imp_zdiv_nonneg_iff)
    ultimately have 4: "py_index (steps S) (i div d) = Inr (steps S ! nat (i div d))"
      using st by (intro py_index_in_range) auto
    show ?thesis by (simp add: 1 2 3 4 ebind_def)
  qed
  then have "emap (\<lambda>i.
        ebind (py_index (years S) i) (\<lambda>yi.
        ebind (py_index (years S) 0) (\<lambda>y0.
        ebind (py_floordiv i d) (\<lambda>q.
        ebind (py_index (steps S) q) (\<lambda>s.
        Inr ((yi - y0) + k, s)))))) (map int [0..<nat (y1 - y0 + 1)])
      = Inr (map (\<lambda>i. (i + k, steps S ! nat (i div d))) (map int [0..<nat (y1 - y0 + 1)]))"
    by (rule emap_maps)
  moreover have "length (years S) = nat (y1 - y0 + 1)" by (simp add: ys)
  ultimately show ?thesis
    unfolding years_steps_tuples_def by simp
qed

lemma step_of_year_consecutive:
  assumes ys: "years S = [y0..y1]" "y0 \<le> y1"
      and y: "y \<in> set (years S)"
  shows "step_of_year S (map (\<lambda>i. (f i, steps S ! nat (i div d))) (map int [0..<nat (y1 - y0 + 1)])) y
           = Inr (steps S ! nat ((y - y0) div d))"
proof -
  from y have r: "y0 \<le> y" "y \<le> y1" by (simp_all add: ys)
  have 2: "py_index (years S) 0 = Inr y0"
    using ys by (simp add: py_index_upto_first)
  let ?tuples = "map (\<lambda>i. (f i, steps S ! nat (i div d))) (map int [0..<nat (y1 - y0 + 1)])"
  have "nat (y - y0) < nat (y1 - y0 + 1)" using r by simp
  then have "py_index ?tuples (y - y0) = Inr (f (y - y0), steps S ! nat ((y - y0) div d))"
    using r by (simp add: py_index_def)
  then show ?thesis
    by (simp add: step_of_year_def 2 ebind_def)
qed

lemma coords_update_order:
  fixes c :: coords
  shows "c\<lparr>generator_type := g, step := s\<rparr> = c\<lparr>step := s, generator_type := g\<rparr>"
    and "c\<lparr>generator_type := g, year := y\<rparr> = c\<lparr>year := y, generator_type := g\<rparr>"
    and "c\<lparr>renewable_source := r, step := s\<rparr> = c\<lparr>step := s, renewable_source := r\<rparr>"
    and "c\<lparr>renewable_source := r, year := y\<rparr> = c\<lparr>year := y, renewable_source := r\<rparr>"
    and "c\<lparr>period := p, year := y\<rparr> = c\<lparr>year := y, period := p\<rparr>"
    and "c\<lparr>step := s, year := y\<rparr> = c\<lparr>year := y, step := s\<rparr>"
    and "c\<lparr>sample_point := k, generator_type := g\<rparr> = c\<lparr>generator_type := g, sample_point := k\<rparr>"
  by simp_all

section \<open>Claims about the discount rate\<close>

lemma leverage_nonneg:
  fixes debt equity :: real
  assumes "0 \<le> debt" and "0 \<le> equity"
  shows "1 + debt / equity \<noteq> 0"
proof -
  have "0 \<le> debt / equity" using assms by simp
  then show ?thesis by linarith
qed

text \<open>
  C9. With WACC financing enabled (\<open>wacc_calculation == 1\<close>) and a nonzero equity share,
  the discount rate is \<open>cost_of_debt * (1 - tax) * leverage / (1 + leverage) +
  cost_of_equity / (1 + leverage)\<close> with \<open>leverage = debt_share / equity_share\<close>, which
  is the same number as \<open>debt_share / equity_share * cost_of_debt * (1 - tax) / (1 + leverage)
  + cost_of_equity / (1 + leverage)\<close>; with a zero equity share it is
  \<open>cost_of_debt * (1 - tax)\<close>; with WACC disabled it is the user-supplied discount rate.
  The formula divides by \<open>1 + leverage\<close>, so it is stated where that is nonzero, which
  holds for all non-negative shares (lemma \<open>leverage_nonneg\<close>).
\<close>

theorem operate_discount_rate_cases:
  fixes data :: project_parameters
  defines "a \<equiv> advanced data"
  defines "leverage \<equiv> debt_share a / equity_share a"
  shows "(wacc_calculation a = 1 \<and> equity_share a \<noteq> 0 \<and> 1 + leverage \<noteq> 0 \<longrightarrow>
            operate_discount_rate data =
              Inr (cost_of_debt a * (1 - tax a) * leverage / (1 + leverage)
                   + cost_of_equity a / (1 + leverage))
          \<and> cost_of_debt a * (1 - tax a) * leverage / (1 + leverage)
                + cost_of_equity a / (1 + leverage)
              = debt_share a / equity_share a * cost_of_debt a * (1 - tax a) / (1 + leverage)
                + cost_of_equity a / (1 + leverage))
       \<and> (wacc_calculation a = 1 \<and> equity_share a = 0 \<longrightarrow>
            operate_discount_rate data = Inr (cost_of_debt a * (1 - tax a)))
       \<and> (wacc_calculation a \<noteq> 1 \<longrightarrow>
            operate_discount_rate data = Inr (discount_rate (project data)))"
  unfolding a_def leverage_def
  by (simp add: operate_discount_rate_def Let_def ebind_def py_truediv_def)

theorem operate_discount_rate_cases_witness:
  "operate_discount_rate example_settings = Inr (23 / 200)
   \<and> operate_discount_rate (example_settings\<lparr>advanced := example_advanced\<lparr>equity_share := 0\<rparr>\<rparr>)
       = Inr (2 / 25)
   \<and> operate_discount_rate (example_settings\<lparr>advanced := example_advanced\<lparr>wacc_calculation := 0\<rparr>\<rparr>)
       = Inr (1 / 10)"
  using operate_discount_rate_cases [of example_settings]
        operate_discount_rate_cases
          [of "example_settings\<lparr>advanced := example_advanced\<lparr>equity_share := 0\<rparr>\<rparr>"]
        operate_discount_rate_cases
          [of "example_settings\<lparr>advanced := example_advanced\<lparr>wacc_calculation := 0\<rparr>\<rparr>"]
  by (simp add: example_settings_def example_advanced_def example_project_def)

section \<open>Claims about the thermal storage constraints\<close>

text \<open>
  C3. For consecutive years \<open>y0..y1\<close> and periods \<open>p0..p1\<close> the function succeeds and the
  model then holds, for every (year, period), the equality
  \<open>soc == soc_previous * storage_efficiency + (charge - discharge) * delta_time\<close>, where
  \<open>soc_previous\<close> is \<open>capacity * initial_soc_fraction\<close> at the first period of the first
  year, the state at the last period of the year before at the first period of every later
  year, and the state at the period before otherwise. It also holds, for every year, the
  two bounds \<open>soc <= capacity\<close> and \<open>soc >= 0\<close> over all periods, so every feasible
  assignment keeps the state of charge in \<open>[0, capacity]\<close> at every point of the grid.
\<close>

theorem tes_state_of_charge_constraints:
  fixes settings :: project_parameters and S :: sets and param :: dataset
    and model :: constraints and y0 y1 p0 p1 :: int
  defines "cap \<equiv> item (param ''TES_CAPACITY'')"
      and "init \<equiv> item (param ''TES_INITIAL_SOC'')"
      and "dt \<equiv> item (param ''DELTA_TIME'')"
      and "eff \<equiv> tes_storage_efficiency settings"
  assumes ys: "years S = [y0..y1]" "y0 \<le> y1"
      and ps: "periods S = [p0..p1]" "p0 \<le> p1"
  shows "\<exists>m. add_tes_state_of_charge_constraints settings S param model = Inr m
     \<and> (\<forall>y \<in> set (years S). \<forall>p \<in> set (periods S).
           has_constraint m
             (''TES State of Charge Constraint - Year {year}, Period {period}'', [Years y, Periods p])
             (\<lambda>v c. v ''tes_soc'' (c\<lparr>year := y, period := p\<rparr>))
             EQ
             (\<lambda>v c. (if y = y0 \<and> p = p0 then cap * init
                      else if p = p0 then v ''tes_soc'' (c\<lparr>year := y - 1, period := p1\<rparr>)
                      else v ''tes_soc'' (c\<lparr>year := y, period := p - 1\<rparr>)) * eff y p
                     + (v ''tes_charge'' (c\<lparr>year := y, period := p\<rparr>)
                        - v ''tes_discharge'' (c\<lparr>year := y, period := p\<rparr>)) * dt))
     \<and> (\<forall>y \<in> set (years S).
           has_constraint m (''TES Maximum Charge Constraint - Year {year}'', [Years y])
             (\<lambda>v c. v ''tes_soc'' (c\<lparr>year := y\<rparr>)) LE (\<lambda>v c. cap)
         \<and> has_constraint m (''TES Minimum Charge Constraint - Year {year}'', [Years y])
             (\<lambda>v c. v ''tes_soc'' (c\<lparr>year := y\<rparr>)) GE (\<lambda>v c. 0))
     \<and> (\<forall>v grid. feasible v grid m \<longrightarrow>
           (\<forall>c \<in> set grid. \<forall>y \<in> set (years S).
              0 \<le> v ''tes_soc'' (c\<lparr>year := y\<rparr>) \<and> v ''tes_soc'' (c\<lparr>year := y\<rparr>) \<le> cap))"
proof -
  let ?row = "\<lambda>y p. \<lparr>cname = (''TES State of Charge Constraint - Year {year}, Period {period}'',
                               [Years y, Periods p]),
                      lhs = (\<lambda>v c. v ''tes_soc'' (c\<lparr>year := y, period := p\<rparr>)),
                      sense = EQ,
                      rhs = (\<lambda>v c. (if y = y0 \<and> p = p0 then cap * init
                              else if p = p0 then v ''tes_soc'' (c\<lparr>year := y - 1, period := p1\<rparr>)
                              else v ''tes_soc'' (c\<lparr>year := y, period := p - 1\<rparr>)) * eff y p
                             + (v ''tes_charge'' (c\<lparr>year := y, period := p\<rparr>)
                                - v ''tes_discharge'' (c\<lparr>year := y, period := p\<rparr>)) * dt)\<rparr>"
  let ?bounds = "\<lambda>y. [\<lparr>cname = (''TES Maximum Charge Constraint - Year {year}'', [Years y]),
                       lhs = (\<lambda>v c. v ''tes_soc'' (c\<lparr>year := y\<rparr>)), sense = LE, rhs = (\<lambda>v c. cap)\<rparr>,
                     \<lparr>cname = (''TES Minimum Charge Constraint - Year {year}'', [Years y]),
                       lhs = (\<lambda>v c. v ''tes_soc'' (c\<lparr>year := y\<rparr>)), sense = GE, rhs = (\<lambda>v c. 0)\<rparr>]"
  let ?rows = "concat (map (\<lambda>y. concat (map (\<lambda>p. [?row y p]) [p0..p1])) [y0..y1])"
  let ?m = "model @ ?rows @ concat (map ?bounds [y0..y1])"
  have body: "tes_soc_body settings S y0 p0 p1 dt cap init y p m = Inr (m @ [?row y p])"
    if "y \<in> set [y0..y1]" "p \<in> set [p0..p1]" for y p m
    using that
    by (auto simp: tes_soc_body_def tes_soc_previous_def check_label_def ebind_def Let_def
        add_constraints_def ys ps expr_defs eff_def intro!: ext)
  have inner: "for_each [p0..p1] (tes_soc_body settings S y0 p0 p1 dt cap init y) m
                 = Inr (m @ concat (map (\<lambda>p. [?row y p]) [p0..p1]))"
    if "y \<in> set [y0..y1]" for y m
    using that by (intro for_each_appends body)
  have outer: "for_each [y0..y1] (\<lambda>y. for_each [p0..p1] (tes_soc_body settings S y0 p0 p1 dt cap init y)) model
                 = Inr (model @ ?rows)"
    by (intro for_each_appends inner)
  have bounds: "fold (tes_soc_bounds_body cap) [y0..y1] m = m @ concat (map ?bounds [y0..y1])" for m
    by (intro fold_appends) (simp add: tes_soc_bounds_body_def add_constraints_def expr_defs)
  have res: "add_tes_state_of_charge_constraints settings S param model = Inr ?m"
    unfolding add_tes_state_of_charge_constraints_def
    by (simp add: ys ps py_index_upto_first py_index_upto_last ebind_def Let_def outer bounds
        cap_def[symmetric] init_def[symmetric] dt_def[symmetric])
  have soc: "has_constraint ?m (cname (?row y p)) (lhs (?row y p)) EQ (rhs (?row y p))"
    if "y \<in> set [y0..y1]" "p \<in> set [p0..p1]" for y p
    using that
    by (intro has_constraint_append disjI2 disjI1 has_constraint_concat[where x = y]
              has_constraint_concat[where x = p] has_constraint_Cons) simp_all
  have mx: "has_constraint ?m (''TES Maximum Charge Constraint - Year {year}'', [Years y])
              (\<lambda>v c. v ''tes_soc'' (c\<lparr>year := y\<rparr>)) LE (\<lambda>v c. cap)"
    if "y \<in> set [y0..y1]" for y
    using that
    by (intro has_constraint_append disjI2 has_constraint_concat[where x = y]
              has_constraint_Cons disjI1) simp_all
  have mn: "has_constraint ?m (''TES Minimum Charge Constraint - Year {year}'', [Years y])
              (\<lambda>v c. v ''tes_soc'' (c\<lparr>year := y\<rparr>)) GE (\<lambda>v c. 0)"
    if "y \<in> set [y0..y1]" for y
    using that
    by (intro has_constraint_append disjI2 has_constraint_concat[where x = y])
       (simp_all add: has_constraint_def)
  have feas: "0 \<le> v ''tes_soc'' (c\<lparr>year := y\<rparr>) \<and> v ''tes_soc'' (c\<lparr>year := y\<rparr>) \<le> cap"
    if "feasible v grid ?m" "c \<in> set grid" "y \<in> set [y0..y1]" for v grid c y
    using feasible_has_constraint[OF that(1) mx[OF that(3)] that(2)]
          feasible_has_constraint[OF that(1) mn[OF that(3)] that(2)]
    by simp
  show ?thesis
    unfolding res
    using soc mx mn feas by (simp add: ys ps)
qed

theorem tes_state_of_charge_constraints_witness:
  "\<exists>m. add_tes_state_of_charge_constraints example_settings example_sets example_param [] = Inr m
     \<and> has_constraint m
          (''TES State of Charge Constraint - Year {year}, Period {period}'', [Years 2021, Periods 1])
          (\<lambda>v c. v ''tes_soc'' (c\<lparr>year := 2021, period := 1\<rparr>))
          EQ
          (\<lambda>v c. v ''tes_soc'' (c\<lparr>year := 2020, period := 2\<rparr>) * (9 / 10)
                  + (v ''tes_charge'' (c\<lparr>year := 2021, period := 1\<rparr>)
                     - v ''tes_discharge'' (c\<lparr>year := 2021, period := 1\<rparr>)) * 1)
     \<and> has_constraint m
          (''TES State of Charge Constraint - Year {year}, Period {period}'', [Years 2020, Periods 1])
          (\<lambda>v c. v ''tes_soc'' (c\<lparr>year := 2020, period := 1\<rparr>))
          EQ
          (\<lambda>v c. 100 * (1 / 2) * (9 / 10)
                  + (v ''tes_charge'' (c\<lparr>year := 2020, period := 1\<rparr>)
                     - v ''tes_discharge'' (c\<lparr>year := 2020, period := 1\<rparr>)) * 1)"
proof -
  have ys: "years example_sets = [2020..2021]" and ps: "periods example_sets = [1..2]"
    by (simp_all add: example_sets_def upto.simps)
  from tes_state_of_charge_constraints [OF ys _ ps, of example_settings example_param "[]"]
  obtain m where
    res: "add_tes_state_of_charge_constraints example_settings example_sets example_param [] = Inr m"
    and rows: "\<forall>y \<in> set (years example_sets). \<forall>p \<in> set (periods example_sets).
           has_constraint m
             (''TES State of Charge Constraint - Year {year}, Period {period}'', [Years y, Periods p])
             (\<lambda>v c. v ''tes_soc'' (c\<lparr>year := y, period := p\<rparr>))
             EQ
             (\<lambda>v c. (if y = 2020 \<and> p = 1 then item (example_param ''TES_CAPACITY'') * item (example_param ''TES_INITIAL_SOC'')
                      else if p = 1 then v ''tes_soc'' (c\<lparr>year := y - 1, period := 2\<rparr>)
                      else v ''tes_soc'' (c\<lparr>year := y, period := p - 1\<rparr>)) * tes_storage_efficiency example_settings y p
                     + (v ''tes_charge'' (c\<lparr>year := y, period := p\<rparr>)
                        - v ''tes_discharge'' (c\<lparr>year := y, period := p\<rparr>)) * item (example_param ''DELTA_TIME''))"
    by auto
  have mem: "2021 \<in> set (years example_sets)" "2020 \<in> set (years example_sets)"
    "1 \<in> set (periods example_sets)"
    by (simp_all add: ys ps)
  have "tes_storage_efficiency example_settings = (\<lambda>y p. 9 / 10)"
    by (simp add: example_settings_def)
  with rows [rule_format, OF mem(1) mem(3)] rows [rule_format, OF mem(2) mem(3)] res
  show ?thesis
    by (simp add: example_param_def item_def)
qed

text \<open>
  C4. With a nonzero \<open>delta_time\<close> the function succeeds and the model then holds, for
  every (year, period), \<open>charge <= M * mode\<close> and \<open>discharge <= M * (1 - mode)\<close> with
  \<open>M = tes_capacity / delta_time\<close>. Together with the lower bounds \<open>charge >= 0\<close> and
  \<open>discharge >= 0\<close> that the same function adds, every feasible assignment in which
  \<open>mode\<close> is 0 or 1 has \<open>charge * discharge = 0\<close> at every year and every grid point
  whose period is in the set. That \<open>mode\<close> is declared binary is part of the variable
  declarations, which the function does not see; it is a hypothesis here.
\<close>

theorem tes_flow_constraints_exclusive:
  fixes settings :: project_parameters and S :: sets and param :: dataset and model :: constraints
  defines "M \<equiv> item (param ''TES_CAPACITY'') / item (param ''DELTA_TIME'')"
  assumes dt: "item (param ''DELTA_TIME'') \<noteq> 0"
  shows "\<exists>m. add_tes_flow_constraints settings S param model = Inr m
     \<and> (\<forall>y \<in> set (years S). \<forall>p \<in> set (periods S).
           has_constraint m
             (''TES Charge Allowed - Year {year} Period {period}'', [Years y, Periods p])
             (\<lambda>v c. v ''tes_charge'' (c\<lparr>year := y, period := p\<rparr>))
             LE
             (\<lambda>v c. M * v ''tes_mode'' (c\<lparr>year := y, period := p\<rparr>))
         \<and> has_constraint m
             (''TES Discharge Allowed - Year {year} Period {period}'', [Years y, Periods p])
             (\<lambda>v c. v ''tes_discharge'' (c\<lparr>year := y, period := p\<rparr>))
             LE
             (\<lambda>v c. M * (1 - v ''tes_mode'' (c\<lparr>year := y, period := p\<rparr>))))
     \<and> (\<forall>v grid. feasible v grid m \<longrightarrow>
           (\<forall>c \<in> set grid. \<forall>y \<in> set (years S).
              period c \<in> set (periods S) \<longrightarrow>
              v ''tes_mode'' (c\<lparr>year := y\<rparr>) \<in> {0, 1} \<longrightarrow>
              v ''tes_charge'' (c\<lparr>year := y\<rparr>) * v ''tes_discharge'' (c\<lparr>year := y\<rparr>) = 0))"
proof -
  let ?ch = "\<lambda>y p. \<lparr>cname = (''TES Charge Allowed - Year {year} Period {period}'', [Years y, Periods p]),
                     lhs = (\<lambda>v c. v ''tes_charge'' (c\<lparr>year := y, period := p\<rparr>)),
                     sense = LE,
                     rhs = (\<lambda>v c. M * v ''tes_mode'' (c\<lparr>year := y, period := p\<rparr>))\<rparr>"
  let ?dis = "\<lambda>y p. \<lparr>cname = (''TES Discharge Allowed - Year {year} Period {period}'', [Years y, Periods p]),
                     lhs = (\<lambda>v c. v ''tes_discharge'' (c\<lparr>year := y, period := p\<rparr>)),
                     sense = LE,
                     rhs = (\<lambda>v c. M * (1 - v ''tes_mode'' (c\<lparr>year := y, period := p\<rparr>)))\<rparr>"
  let ?yr = "\<lambda>y. [\<lparr>cname = (''TES Maximum Charge Flow Constraint - Year {year}'', [Years y]),
                    lhs = (\<lambda>v c. v ''tes_charge'' (c\<lparr>year := y\<rparr>)), sense = LE,
                    rhs = (\<lambda>v c. param ''TES_MAX_CHARGE_RATE'' c)\<rparr>,
                  \<lparr>cname = (''TES Maximum Discharge Flow Constraint - Year {year}'', [Years y]),
                    lhs = (\<lambda>v c. v ''tes_discharge'' (c\<lparr>year := y\<rparr>)), sense = LE,
                    rhs = (\<lambda>v c. param ''TES_MAX_DISCHARGE_RATE'' c)\<rparr>,
                  \<lparr>cname = (''TES Minimum Charge Flow Constraint - Year {year}'', [Years y]),
                    lhs = (\<lambda>v c. v ''tes_charge'' (c\<lparr>year := y\<rparr>)), sense = GE, rhs = (\<lambda>v c. 0)\<rparr>,
                  \<lparr>cname = (''TES Minimum Discharge Flow Constraint - Year {year}'', [Years y]),
                    lhs = (\<lambda>v c. v ''tes_discharge'' (c\<lparr>year := y\<rparr>)), sense = GE, rhs = (\<lambda>v c. 0)\<rparr>]"
  let ?block = "\<lambda>y. ?yr y @ concat (map (\<lambda>p. [?ch y p, ?dis y p]) (periods S))"
  let ?m = "model @ concat (map ?block (years S))"
  have per: "fold (tes_flow_period_body M M y) ps m = m @ concat (map (\<lambda>p. [?ch y p, ?dis y p]) ps)"
    for y ps m
    by (intro fold_appends)
       (auto simp: tes_flow_period_body_def add_constraints_def Let_def expr_defs intro!: ext)
  have yr: "fold (tes_flow_year_body S (param ''TES_MAX_CHARGE_RATE'') (param ''TES_MAX_DISCHARGE_RATE'') M M)
              ys m = m @ concat (map ?block ys)" for ys m
    by (intro fold_appends)
       (simp add: tes_flow_year_body_def add_constraints_def Let_def expr_defs per)
  have bigM: "py_truediv (item (param ''TES_CAPACITY'')) (item (param ''DELTA_TIME'')) = Inr M"
    using dt by (simp add: py_truediv_def M_def)
  have res: "add_tes_flow_constraints settings S param model = Inr ?m"
    by (simp add: add_tes_flow_constraints_def Let_def bigM ebind_def yr)
  have ch: "has_constraint ?m (cname (?ch y p)) (lhs (?ch y p)) LE (rhs (?ch y p))"
    if "y \<in> set (years S)" "p \<in> set (periods S)" for y p
    using that
    by (intro has_constraint_append disjI2 has_constraint_concat[where x = y]
              has_constraint_concat[where x = p] has_constraint_Cons disjI1) simp_all
  have dis: "has_constraint ?m (cname (?dis y p)) (lhs (?dis y p)) LE (rhs (?dis y p))"
    if "y \<in> set (years S)" "p \<in> set (periods S)" for y p
    using that
    by (intro has_constraint_append disjI2 has_constraint_concat[where x = y]
              has_constraint_concat[where x = p])
       (simp_all add: has_constraint_def)
  have lo_ch: "has_constraint ?m (''TES Minimum Charge Flow Constraint - Year {year}'', [Years y])
                 (\<lambda>v c. v ''tes_charge'' (c\<lparr>year := y\<rparr>)) GE (\<lambda>v c. 0)"
    if "y \<in> set (years S)" for y
    using that
    by (intro has_constraint_append disjI2 has_constraint_concat[where x = y] disjI1)
       (simp_all add: has_constraint_def)
  have lo_dis: "has_constraint ?m (''TES Minimum Discharge Flow Constraint - Year {year}'', [Years y])
                 (\<lambda>v c. v ''tes_discharge'' (c\<lparr>year := y\<rparr>)) GE (\<lambda>v c. 0)"
    if "y \<in> set (years S)" for y
    using that
    by (intro has_constraint_append disjI2 has_constraint_concat[where x = y] disjI1)
       (simp_all add: has_constraint_def)
  have excl: "v ''tes_charge'' (c\<lparr>year := y\<rparr>) * v ''tes_discharge'' (c\<lparr>year := y\<rparr>) = 0"
    if f: "feasible v grid ?m" and c: "c \<in> set grid" and y: "y \<in> set (years S)"
      and p: "period c \<in> set (periods S)" and b: "v ''tes_mode'' (c\<lparr>year := y\<rparr>) \<in> {0, 1}"
    for v grid c y
  proof -
    have eq: "c\<lparr>year := y, period := period c\<rparr> = c\<lparr>year := y\<rparr>" by simp
    have 1: "v ''tes_charge'' (c\<lparr>year := y\<rparr>) \<le> M * v ''tes_mode'' (c\<lparr>year := y\<rparr>)"
      using feasible_has_constraint[OF f ch[OF y p] c] by (simp add: eq)
    have 2: "v ''tes_discharge'' (c\<lparr>year := y\<rparr>) \<le> M * (1 - v ''tes_mode'' (c\<lparr>year := y\<rparr>))"
      using feasible_has_constraint[OF f dis[OF y p] c] by (simp add: eq)
    have 3: "0 \<le> v ''tes_charge'' (c\<lparr>year := y\<rparr>)"
      using feasible_has_constraint[OF f lo_ch[OF y] c] by simp
    have 4: "0 \<le> v ''tes_discharge'' (c\<lparr>year := y\<rparr>)"
      using feasible_has_constraint[OF f lo_dis[OF y] c] by simp
    from b consider "v ''tes_mode'' (c\<lparr>year := y\<rparr>) = 0" | "v ''tes_mode'' (c\<lparr>year := y\<rparr>) = 1"
      by auto
    then show ?thesis
    proof cases
      case 1
      with \<open>v ''tes_charge'' (c\<lparr>year := y\<rparr>) \<le> M * v ''tes_mode'' (c\<lparr>year := y\<rparr>)\<close> 3
      show ?thesis by simp
    next
      case 2
      with \<open>v ''tes_discharge'' (c\<lparr>year := y\<rparr>) \<le> M * (1 - v ''tes_mode'' (c\<lparr>year := y\<rparr>))\<close> 4
      show ?thesis by simp
    qed
  qed
  show ?thesis
    unfolding res
    using ch dis excl by simp
qed

theorem tes_flow_constraints_exclusive_witness:
  "\<exists>m. add_tes_flow_constraints example_settings example_sets example_param [] = Inr m
     \<and> feasible example_assignment example_grid m
     \<and> example_assignment ''tes_mode'' (origin\<lparr>period := 1, year := 2020\<rparr>) \<in> {0, 1}
     \<and> example_assignment ''tes_charge'' (origin\<lparr>period := 1, year := 2020\<rparr>)
         * example_assignment ''tes_discharge'' (origin\<lparr>period := 1, year := 2020\<rparr>) = 0"
proof -
  have dt: "item (example_param ''DELTA_TIME'') \<noteq> 0"
    by (simp add: example_param_def item_def)
  from tes_flow_constraints_exclusive
         [where param = example_param and settings = example_settings and S = example_sets
            and model = "[]", OF dt]
  obtain m where
    res: "add_tes_flow_constraints example_settings example_sets example_param [] = Inr m"
    and excl: "\<And>v grid c y. feasible v grid m \<Longrightarrow> c \<in> set grid \<Longrightarrow> y \<in> set (years example_sets)
        \<Longrightarrow> period c \<in> set (periods example_sets) \<Longrightarrow> v ''tes_mode'' (c\<lparr>year := y\<rparr>) \<in> {0, 1}
        \<Longrightarrow> v ''tes_charge'' (c\<lparr>year := y\<rparr>) * v ''tes_discharge'' (c\<lparr>year := y\<rparr>) = 0"
    by blast
  have "\<exists>m'. add_tes_flow_constraints example_settings example_sets example_param [] = Inr m'
          \<and> feasible example_assignment example_grid m'"
    by (simp add: add_tes_flow_constraints_def tes_flow_year_body_def tes_flow_period_body_def
        add_constraints_def example_sets_def example_param_def example_assignment_def
        example_grid_def item_def py_truediv_def ebind_def Let_def feasible_def holds_def expr_defs)
  with res have feas: "feasible example_assignment example_grid m" by auto
  have mode: "example_assignment ''tes_mode'' (origin\<lparr>period := 1, year := 2020\<rparr>) \<in> {0, 1}"
    by (simp add: example_assignment_def)
  have "example_assignment ''tes_charge'' ((origin\<lparr>period := 1\<rparr>)\<lparr>year := 2020\<rparr>)
         * example_assignment ''tes_discharge'' ((origin\<lparr>period := 1\<rparr>)\<lparr>year := 2020\<rparr>) = 0"
    by (rule excl [OF feas])
       (simp_all add: example_grid_def example_sets_def example_assignment_def)
  with res feas mode show ?thesis by simp
qed

section \<open>Claims about the generator constraints\<close>

text \<open>
  C7 (as amended). Under brownfield mode, with consecutive years \<open>y0..y1\<close>, a positive step
  duration and enough steps, the function succeeds and the bound on the production of
  generator type \<open>g\<close> in year \<open>y\<close> is \<open>units[step] * nominal_capacity\<close> plus the
  existing capacity exactly when \<open>existing_years + (y - years[0]) <= lifetime\<close>, where
  \<open>step = steps[(y - years[0]) // step_duration]\<close>. With \<open>existing_years = 9\<close>,
  \<open>lifetime = 10\<close> and \<open>years[0] = 0\<close> the existing capacity is in the bound of year 1
  and in neither that of year 2 nor that of year 5.
\<close>

theorem brownfield_existing_capacity:
  fixes settings :: project_parameters and S :: sets and param :: dataset
    and model :: constraints and y0 y1 :: int
  defines "d \<equiv> step_duration (advanced settings)"
      and "existing_years \<equiv> \<lambda>g. param ''GENERATOR_EXISTING_YEARS'' (origin\<lparr>generator_type := g\<rparr>)"
      and "lifetime \<equiv> \<lambda>g. param ''GENERATOR_LIFETIME'' (origin\<lparr>generator_type := g\<rparr>)"
  assumes bf: "brownfield (advanced settings)"
      and ys: "years S = [y0..y1]" "y0 \<le> y1"
      and d: "0 < d"
      and st: "(y1 - y0) div d < int (length (steps S))"
  shows "\<exists>m. add_generator_max_energy_production_constraint settings S param model = Inr m
     \<and> (\<forall>y \<in> set (years S). \<forall>g \<in> set (generator_types S).
           has_constraint m
             (''Generator Energy Production Constraint - Year {year}, Type {gen}'',
              [Years y, Generator_types g])
             (\<lambda>v c. v ''generator_energy_production'' (c\<lparr>year := y, generator_type := g\<rparr>))
             LE
             (\<lambda>v c. v ''generator_units''
                        (c\<lparr>step := steps S ! nat ((y - y0) div d), generator_type := g\<rparr>)
                      * param ''GENERATOR_NOMINAL_CAPACITY'' (c\<lparr>generator_type := g\<rparr>)
                    + (if existing_years g + real_of_int (y - y0) \<le> lifetime g
                       then param ''GENERATOR_EXISTING_CAPACITY'' (c\<lparr>generator_type := g\<rparr>)
                       else 0)))"
proof -
  let ?row = "\<lambda>y g. \<lparr>cname = (''Generator Energy Production Constraint - Year {year}, Type {gen}'',
                               [Years y, Generator_types g]),
                      lhs = (\<lambda>v c. v ''generator_energy_production'' (c\<lparr>year := y, generator_type := g\<rparr>)),
                      sense = LE,
                      rhs = (\<lambda>v c. v ''generator_units''
                                      (c\<lparr>step := steps S ! nat ((y - y0) div d), generator_type := g\<rparr>)
                                    * param ''GENERATOR_NOMINAL_CAPACITY'' (c\<lparr>generator_type := g\<rparr>)
                                  + (if existing_years g + real_of_int (y - y0) \<le> lifetime g
                                     then param ''GENERATOR_EXISTING_CAPACITY'' (c\<lparr>generator_type := g\<rparr>)
                                     else 0))\<rparr>"
  let ?tuples = "map (\<lambda>i. (i + 1, steps S ! nat (i div d))) (map int [0..<nat (y1 - y0 + 1)])"
  let ?m = "model @ concat (map (\<lambda>y. concat (map (\<lambda>g. [?row y g]) (generator_types S))) (years S))"
  have first: "py_index (years S) 0 = Inr y0"
    using ys by (simp add: py_index_upto_first)
  have gen: "brownfield_gen_body S param y (steps S ! nat ((y - y0) div d)) g m = Inr (m @ [?row y g])"
    for y g m
    by (auto simp: brownfield_gen_body_def first ebind_def Let_def add_constraints_def item_def
        asel_def expr_defs existing_years_def lifetime_def coords_update_order intro!: ext)
  have yr: "brownfield_year_body S param ?tuples y m
              = Inr (m @ concat (map (\<lambda>g. [?row y g]) (generator_types S)))"
    if "y \<in> set (years S)" for y m
  proof -
    have "step_of_year S ?tuples y = Inr (steps S ! nat ((y - y0) div d))"
      by (rule step_of_year_consecutive[OF ys that])
    moreover have "for_each (generator_types S)
                     (brownfield_gen_body S param y (steps S ! nat ((y - y0) div d))) m
                   = Inr (m @ concat (map (\<lambda>g. [?row y g]) (generator_types S)))"
      by (rule for_each_appends) (rule gen)
    ultimately show ?thesis
      by (simp only: brownfield_year_body_def ebind_def sum.case)
  qed
  have tuples: "years_steps_tuples 1 S d = Inr ?tuples"
    by (rule years_steps_tuples_consecutive[OF ys d st])
  have loop: "for_each (years S) (brownfield_year_body S param ?tuples) model = Inr ?m"
    by (rule for_each_appends) (rule yr)
  have "add_generator_max_energy_production_constraint settings S param model
          = ebind (years_steps_tuples 1 S d)
              (\<lambda>tuples. for_each (years S) (brownfield_year_body S param tuples) model)"
    using bf by (simp add: add_generator_max_energy_production_constraint_def d_def)
  also have "\<dots> = for_each (years S) (brownfield_year_body S param ?tuples) model"
    by (simp only: tuples ebind_def sum.case)
  finally have res: "add_generator_max_energy_production_constraint settings S param model = Inr ?m"
    by (simp only: loop)
  have "has_constraint ?m (cname (?row y g)) (lhs (?row y g)) LE (rhs (?row y g))"
    if "y \<in> set (years S)" "g \<in> set (generator_types S)" for y g
    using that
    by (intro has_constraint_append disjI2 has_constraint_concat[where x = y]
              has_constraint_concat[where x = g] has_constraint_Cons disjI1) simp_all
  then show ?thesis
    unfolding res by simp
qed

theorem brownfield_existing_capacity_witness:
  "\<exists>m. add_generator_max_energy_production_constraint brownfield_settings brownfield_sets
          brownfield_param [] = Inr m
     \<and> has_constraint m
          (''Generator Energy Production Constraint - Year {year}, Type {gen}'',
           [Years 1, Generator_types ''diesel''])
          (\<lambda>v c. v ''generator_energy_production'' (c\<lparr>year := 1, generator_type := ''diesel''\<rparr>))
          LE
          (\<lambda>v c. v ''generator_units'' (c\<lparr>step := 1, generator_type := ''diesel''\<rparr>) * 20 + 50)
     \<and> has_constraint m
          (''Generator Energy Production Constraint - Year {year}, Type {gen}'',
           [Years 2, Generator_types ''diesel''])
          (\<lambda>v c. v ''generator_energy_production'' (c\<lparr>year := 2, generator_type := ''diesel''\<rparr>))
          LE
          (\<lambda>v c. v ''generator_units'' (c\<lparr>step := 1, generator_type := ''diesel''\<rparr>) * 20)
     \<and> has_constraint m
          (''Generator Energy Production Constraint - Year {year}, Type {gen}'',
           [Years 5, Generator_types ''diesel''])
          (\<lambda>v c. v ''generator_energy_production'' (c\<lparr>year := 5, generator_type := ''diesel''\<rparr>))
          LE
          (\<lambda>v c. v ''generator_units'' (c\<lparr>step := 1, generator_type := ''diesel''\<rparr>) * 20)"
proof -
  have bf: "brownfield (advanced brownfield_settings)"
    and d: "step_duration (advanced brownfield_settings) = 6"
    by (simp_all add: brownfield_settings_def example_settings_def example_advanced_def)
  have ys: "years brownfield_sets = [0..5]"
    by (simp add: brownfield_sets_def upto.simps)
  have st: "(5 - 0) div step_duration (advanced brownfield_settings)
              < int (length (steps brownfield_sets))"
    by (simp add: d brownfield_sets_def)
  from brownfield_existing_capacity
         [where settings = brownfield_settings and S = brownfield_sets and param = brownfield_param
            and model = "[]" and ?y0.0 = 0 and ?y1.0 = 5, OF bf ys _ _ st]
  obtain m where
    res: "add_generator_max_energy_production_constraint brownfield_settings brownfield_sets
            brownfield_param [] = Inr m"
    and rows: "\<forall>y \<in> set (years brownfield_sets). \<forall>g \<in> set (generator_types brownfield_sets).
           has_constraint m
             (''Generator Energy Production Constraint - Year {year}, Type {gen}'',
              [Years y, Generator_types g])
             (\<lambda>v c. v ''generator_energy_production'' (c\<lparr>year := y, generator_type := g\<rparr>))
             LE
             (\<lambda>v c. v ''generator_units''
                        (c\<lparr>step := steps brownfield_sets ! nat ((y - 0) div 6), generator_type := g\<rparr>)
                      * brownfield_param ''GENERATOR_NOMINAL_CAPACITY'' (c\<lparr>generator_type := g\<rparr>)
                    + (if brownfield_param ''GENERATOR_EXISTING_YEARS'' (origin\<lparr>generator_type := g\<rparr>)
                          + real_of_int (y - 0)
                          \<le> brownfield_param ''GENERATOR_LIFETIME'' (origin\<lparr>generator_type := g\<rparr>)
                       then brownfield_param ''GENERATOR_EXISTING_CAPACITY'' (c\<lparr>generator_type := g\<rparr>)
                       else 0))"
    by (auto simp: d)
  have mem: "1 \<in> set (years brownfield_sets)" "2 \<in> set (years brownfield_sets)"
    "5 \<in> set (years brownfield_sets)" "''diesel'' \<in> set (generator_types brownfield_sets)"
    by (simp_all add: brownfield_sets_def)
  have stp: "steps brownfield_sets = [1]" by (simp add: brownfield_sets_def)
  from rows [rule_format, OF mem(1) mem(4)] rows [rule_format, OF mem(2) mem(4)]
       rows [rule_format, OF mem(3) mem(4)] res
  show ?thesis
    by (simp add: brownfield_param_def stp)
qed

text \<open>
  C7 as stated has the existing capacity still available at year 2. There the age is
  \<open>9 + 2 = 11 > 10\<close>, and the constraint of year 2 built by the code has no existing
  capacity in its bound.
\<close>

theorem brownfield_year_2_counterexample:
  "\<exists>m. add_generator_max_energy_production_constraint brownfield_settings brownfield_sets
          brownfield_param [] = Inr m
     \<and> \<not> has_constraint m
          (''Generator Energy Production Constraint - Year {year}, Type {gen}'',
           [Years 2, Generator_types ''diesel''])
          (\<lambda>v c. v ''generator_energy_production'' (c\<lparr>year := 2, generator_type := ''diesel''\<rparr>))
          LE
          (\<lambda>v c. v ''generator_units'' (c\<lparr>step := 1, generator_type := ''diesel''\<rparr>) * 20 + 50)"
proof -
  have neq: "(\<lambda>(v :: assignment) c. v ''generator_units'' (c\<lparr>step := 1, generator_type := ''diesel''\<rparr>) * 20)
           \<noteq> (\<lambda>v c. v ''generator_units'' (c\<lparr>step := 1, generator_type := ''diesel''\<rparr>) * 20 + 50)"
    by (auto simp: fun_eq_iff)
  show ?thesis
    using neq
    by (simp add: add_generator_max_energy_production_constraint_def years_steps_tuples_def
        brownfield_year_body_def brownfield_gen_body_def step_of_year_def
        brownfield_settings_def example_settings_def example_advanced_def brownfield_sets_def
        brownfield_param_def py_index_def py_floordiv_def ebind_def Let_def item_def asel_def
        add_constraints_def has_constraint_def expr_defs coords_update_order upt_rec)
qed

lemma drop_1_upto: "drop 1 [i..j] = [i + 1..j]"
  by (cases "i \<le> j") (simp_all add: upto.simps)

lemma chain_mono_int:
  fixes f :: "int \<Rightarrow> real"
  assumes step: "\<And>s. a < s \<Longrightarrow> s \<le> b \<Longrightarrow> f (s - 1) \<le> f s"
      and "a \<le> s" "s \<le> s'" "s' \<le> b"
  shows "f s \<le> f s'"
proof -
  have "s \<le> t \<Longrightarrow> t \<le> b \<Longrightarrow> f s \<le> f t" for t
  proof (induction t rule: int_ge_induct)
    case base
    show ?case by simp
  next
    case (step t)
    have "f t \<le> f (t + 1)"
      using step.prems step.hyps assms(2) assms(1)[of "t + 1"] by simp
    moreover have "f s \<le> f t" using step by simp
    ultimately show ?case by simp
  qed
  then show ?thesis using assms by simp
qed

lemmas generator_defs =
  add_generator_max_energy_production_constraint_def add_generator_fuel_consumption_constraints_def
  years_steps_tuples_def step_of_year_def brownfield_year_body_def brownfield_gen_body_def
  fuel_year_body_def fuel_gen_body_def partial_load_segment_body_def truth_value_def
  py_index_def py_floordiv_def ebind_def Let_def item_def asel_def add_constraints_def

text \<open>
  C6. With capacity expansion enabled and consecutive step labels \<open>s0..s1\<close>, once the two
  other generator modules have run the capacity-expansion module succeeds, and the model
  then holds \<open>generator_units[s] >= generator_units[s - 1]\<close> for every step \<open>s\<close> after the
  first. Every feasible assignment therefore has generator units that are monotone
  non-decreasing over the steps, at every grid point.
\<close>

theorem generator_capacity_expansion:
  fixes settings :: project_parameters and S :: sets and param :: dataset
    and model m1 m2 :: constraints and s0 s1 :: int
  assumes ce: "capacity_expansion (advanced settings)"
      and st: "steps S = [s0..s1]"
      and r1: "add_generator_max_energy_production_constraint settings S param model = Inr m1"
      and r2: "add_generator_fuel_consumption_constraints settings S param n_samples m1 = Inr m2"
  shows "\<exists>m. add_generator_constraints settings S param n_samples model = Inr m
     \<and> (\<forall>s \<in> set (steps S). s \<noteq> s0 \<longrightarrow>
           has_constraint m (''Generator Min Step Units Constraint - Step {step}'', [Steps s])
             (\<lambda>v c. v ''generator_units'' (c\<lparr>step := s\<rparr>)) GE
             (\<lambda>v c. v ''generator_units'' (c\<lparr>step := s - 1\<rparr>)))
     \<and> (\<forall>v grid. feasible v grid m \<longrightarrow>
           (\<forall>c \<in> set grid. \<forall>s \<in> set (steps S). \<forall>s' \<in> set (steps S). s \<le> s' \<longrightarrow>
              v ''generator_units'' (c\<lparr>step := s\<rparr>) \<le> v ''generator_units'' (c\<lparr>step := s'\<rparr>)))"
proof -
  let ?row = "\<lambda>s. \<lparr>cname = (''Generator Min Step Units Constraint - Step {step}'', [Steps s]),
                    lhs = (\<lambda>v c. v ''generator_units'' (c\<lparr>step := s\<rparr>)),
                    sense = GE,
                    rhs = (\<lambda>v c. v ''generator_units'' (c\<lparr>step := s - 1\<rparr>))\<rparr>"
  let ?m = "m2 @ concat (map (\<lambda>s. [?row s]) [s0 + 1..s1])"
  have body: "capacity_expansion_body S s m = Inr (m @ [?row s])" if "s \<in> set [s0 + 1..s1]" for s m
    using that
    by (simp add: capacity_expansion_body_def check_label_def st ebind_def add_constraints_def expr_defs)
  have "add_generator_capacity_expansion_constraints S m2 = Inr ?m"
    unfolding add_generator_capacity_expansion_constraints_def st drop_1_upto
    by (rule for_each_appends) (rule body)
  then have res: "add_generator_constraints settings S param n_samples model = Inr ?m"
    using ce by (simp add: add_generator_constraints_def r1 r2 ebind_def)
  have rows: "has_constraint ?m (cname (?row s)) (lhs (?row s)) GE (rhs (?row s))"
    if "s \<in> set [s0..s1]" "s \<noteq> s0" for s
  proof -
    from that have "s \<in> set [s0 + 1..s1]" by simp
    then show ?thesis
      by (intro has_constraint_append disjI2 has_constraint_concat[where x = s]
                has_constraint_Cons disjI1) simp_all
  qed
  have mono: "v ''generator_units'' (c\<lparr>step := s\<rparr>) \<le> v ''generator_units'' (c\<lparr>step := s'\<rparr>)"
    if f: "feasible v grid ?m" and c: "c \<in> set grid"
      and s: "s \<in> set [s0..s1]" "s' \<in> set [s0..s1]" "s \<le> s'"
    for v grid c s s'
  proof (rule chain_mono_int[where a = s0 and b = s1 and f = "\<lambda>s. v ''generator_units'' (c\<lparr>step := s\<rparr>)"])
    fix t assume t: "s0 < t" "t \<le> s1"
    then have "t \<in> set [s0..s1]" "t \<noteq> s0" by simp_all
    from feasible_has_constraint[OF f rows[OF this] c]
    show "v ''generator_units'' (c\<lparr>step := t - 1\<rparr>) \<le> v ''generator_units'' (c\<lparr>step := t\<rparr>)"
      by simp
  qed (use s in simp_all)
  show ?thesis
    unfolding res st
    using rows mono by simp
qed

theorem generator_capacity_expansion_witness:
  "\<exists>m. add_generator_constraints example_settings example_sets example_param 2 [] = Inr m
     \<and> has_constraint m (''Generator Min Step Units Constraint - Step {step}'', [Steps 2])
          (\<lambda>v c. v ''generator_units'' (c\<lparr>step := 2\<rparr>)) GE
          (\<lambda>v c. v ''generator_units'' (c\<lparr>step := 1\<rparr>))
     \<and> feasible generator_assignment example_grid m
     \<and> generator_assignment ''generator_units'' (origin\<lparr>period := 1, step := 1\<rparr>)
         \<le> generator_assignment ''generator_units'' (origin\<lparr>period := 1, step := 2\<rparr>)"
proof -
  have ce: "capacity_expansion (advanced example_settings)"
    by (simp add: example_settings_def example_advanced_def)
  have st: "steps example_sets = [1..2]"
    by (simp add: example_sets_def upto.simps)
  obtain m1 where r1: "add_generator_max_energy_production_constraint example_settings
                         example_sets example_param [] = Inr m1"
    by (simp add: generator_defs example_settings_def example_advanced_def example_sets_def)
  obtain m2 where r2: "add_generator_fuel_consumption_constraints example_settings
                         example_sets example_param 2 m1 = Inr m2"
    by (simp add: generator_defs example_settings_def example_advanced_def example_sets_def
        example_param_def)
  from generator_capacity_expansion [OF ce st r1 r2]
  obtain m where
    res: "add_generator_constraints example_settings example_sets example_param 2 [] = Inr m"
    and rows: "\<And>s. s \<in> set (steps example_sets) \<Longrightarrow> s \<noteq> 1 \<Longrightarrow>
           has_constraint m (''Generator Min Step Units Constraint - Step {step}'', [Steps s])
             (\<lambda>v c. v ''generator_units'' (c\<lparr>step := s\<rparr>)) GE
             (\<lambda>v c. v ''generator_units'' (c\<lparr>step := s - 1\<rparr>))"
    and mono: "\<And>v grid c s s'. feasible v grid m \<Longrightarrow> c \<in> set grid
           \<Longrightarrow> s \<in> set (steps example_sets) \<Longrightarrow> s' \<in> set (steps example_sets) \<Longrightarrow> s \<le> s'
           \<Longrightarrow> v ''generator_units'' (c\<lparr>step := s\<rparr>) \<le> v ''generator_units'' (c\<lparr>step := s'\<rparr>)"
    by blast
  have "\<exists>m'. add_generator_constraints example_settings example_sets example_param 2 [] = Inr m'
          \<and> feasible generator_assignment example_grid m'"
    by (simp add: add_generator_constraints_def add_generator_capacity_expansion_constraints_def
        capacity_expansion_body_def check_label_def generator_defs
        example_settings_def example_advanced_def example_sets_def example_param_def
        generator_assignment_def example_grid_def feasible_def holds_def expr_defs origin_def)
  with res have feas: "feasible generator_assignment example_grid m" by auto
  have "generator_assignment ''generator_units'' ((origin\<lparr>period := 1\<rparr>)\<lparr>step := 1\<rparr>)
         \<le> generator_assignment ''generator_units'' ((origin\<lparr>period := 1\<rparr>)\<lparr>step := 2\<rparr>)"
    by (rule mono [OF feas]) (simp_all add: example_grid_def example_sets_def)
  moreover have "has_constraint m (''Generator Min Step Units Constraint - Step {step}'', [Steps 2])
          (\<lambda>v c. v ''generator_units'' (c\<lparr>step := 2\<rparr>)) GE
          (\<lambda>v c. v ''generator_units'' (c\<lparr>step := 1\<rparr>))"
    using rows [of 2] by (simp add: example_sets_def)
  ultimately show ?thesis
    using res feas by (simp add: coords_update_order)
qed

text \<open>
  C5. With partial-load modelling enabled and two generator types, the function raises
  \<open>ValueError\<close> at \<open>if (p1 - p0) != 0\<close> and adds no partial-load constraint: \<open>p0\<close> and
  \<open>p1\<close> are computed from \<open>GENERATOR_SAMPLED_RELATIVE_OUTPUT.sel(sample_points=seg)\<close>,
  which still ranges over both generator types, while the sampled efficiency beside it is
  selected with \<open>generator_types=gen\<close>.
\<close>

theorem partial_load_two_generators_raises:
  "add_generator_fuel_consumption_constraints example_settings two_generator_sets example_param 2 []
     = Inl ValueError"
  by (simp add: generator_defs two_generator_sets_def example_settings_def example_advanced_def
      example_sets_def)

text \<open>
  The two cases in which the fuel-consumption module succeeds. Without partial-load
  modelling it adds, for every year and generator type, the equality
  \<open>fuel == energy / (nominal_efficiency * fuel_LHV)\<close>. With partial-load modelling and a
  single generator type it adds, for every year and segment, the lower bound
  \<open>fuel >= slope * (energy - p0 * units) + fc0 * units\<close>, where \<open>p k\<close> is the sampled
  output \<open>k\<close> times the nominal capacity, \<open>fc k = p k / (sampled_efficiency k * fuel_LHV)\<close>
  and \<open>slope\<close> is the secant between the points \<open>k\<close> and \<open>k + 1\<close>, taken as 0 when the
  two outputs are equal.
\<close>

lemma fuel_consumption_nominal:
  fixes settings :: project_parameters and S :: sets and param :: dataset
    and model :: constraints and y0 y1 :: int
  defines "d \<equiv> step_duration (advanced settings)"
  assumes pl: "\<not> partial_load settings"
      and ys: "years S = [y0..y1]" "y0 \<le> y1"
      and d: "0 < d"
      and st: "(y1 - y0) div d < int (length (steps S))"
  shows "\<exists>m. add_generator_fuel_consumption_constraints settings S param n_samples model = Inr m
     \<and> (\<forall>y \<in> set (years S). \<forall>g \<in> set (generator_types S).
           has_constraint m
             (''Fuel Consumption Constraint - Year {year}, Type {gen}'', [Years y, Generator_types g])
             (\<lambda>v c. v ''generator_fuel_consumption'' (c\<lparr>year := y, generator_type := g\<rparr>))
             EQ
             (\<lambda>v c. v ''generator_energy_production'' (c\<lparr>year := y, generator_type := g\<rparr>)
                    / (param ''GENERATOR_NOMINAL_EFFICIENCY'' (c\<lparr>generator_type := g\<rparr>)
                       * param ''FUEL_LHV'' (c\<lparr>generator_type := g\<rparr>))))"
proof -
  let ?row = "\<lambda>y g. \<lparr>cname = (''Fuel Consumption Constraint - Year {year}, Type {gen}'',
                               [Years y, Generator_types g]),
                      lhs = (\<lambda>v c. v ''generator_fuel_consumption'' (c\<lparr>year := y, generator_type := g\<rparr>)),
                      sense = EQ,
                      rhs = (\<lambda>v c. v ''generator_energy_production'' (c\<lparr>year := y, generator_type := g\<rparr>)
                                    / (param ''GENERATOR_NOMINAL_EFFICIENCY'' (c\<lparr>generator_type := g\<rparr>)
                                       * param ''FUEL_LHV'' (c\<lparr>generator_type := g\<rparr>)))\<rparr>"
  let ?tuples = "map (\<lambda>i. (i + 1, steps S ! nat (i div d))) (map int [0..<nat (y1 - y0 + 1)])"
  let ?m = "model @ concat (map (\<lambda>y. concat (map (\<lambda>g. [?row y g]) (generator_types S))) (years S))"
  have gen: "fuel_gen_body settings S param n_samples y stp g m = Inr (m @ [?row y g])" for y stp g m
    using pl
    by (auto simp: fuel_gen_body_def Let_def add_constraints_def asel_def expr_defs intro!: ext)
  have yr: "fuel_year_body settings S param n_samples ?tuples y m
              = Inr (m @ concat (map (\<lambda>g. [?row y g]) (generator_types S)))"
    if "y \<in> set (years S)" for y m
  proof -
    have "step_of_year S ?tuples y = Inr (steps S ! nat ((y - y0) div d))"
      by (rule step_of_year_consecutive[OF ys that])
    moreover have "for_each (generator_types S)
                     (fuel_gen_body settings S param n_samples y (steps S ! nat ((y - y0) div d))) m
                   = Inr (m @ concat (map (\<lambda>g. [?row y g]) (generator_types S)))"
      by (rule for_each_appends) (rule gen)
    ultimately show ?thesis
      by (simp only: fuel_year_body_def ebind_def sum.case)
  qed
  have tuples: "years_steps_tuples 1 S d = Inr ?tuples"
    by (rule years_steps_tuples_consecutive[OF ys d st])
  have loop: "for_each (years S) (fuel_year_body settings S param n_samples ?tuples) model = Inr ?m"
    by (rule for_each_appends) (rule yr)
  have res: "add_generator_fuel_consumption_constraints settings S param n_samples model = Inr ?m"
    unfolding add_generator_fuel_consumption_constraints_def d_def[symmetric]
    by (simp only: tuples ebind_def sum.case loop)
  have "has_constraint ?m (cname (?row y g)) (lhs (?row y g)) EQ (rhs (?row y g))"
    if "y \<in> set (years S)" "g \<in> set (generator_types S)" for y g
    using that
    by (intro has_constraint_append disjI2 has_constraint_concat[where x = y]
              has_constraint_concat[where x = g] has_constraint_Cons disjI1) simp_all
  then show ?thesis
    unfolding res by simp
qed

lemma partial_load_one_generator:
  fixes settings :: project_parameters and S :: sets and param :: dataset
    and model :: constraints and y0 y1 :: int and g :: string and n_samples :: nat
  defines "d \<equiv> step_duration (advanced settings)"
  defines "p \<equiv> \<lambda>k c. param ''GENERATOR_SAMPLED_RELATIVE_OUTPUT'' (c\<lparr>sample_point := k\<rparr>)
                        * param ''GENERATOR_NOMINAL_CAPACITY'' (c\<lparr>generator_type := g\<rparr>)"
  defines "fc \<equiv> \<lambda>k c. p k c
                        / (param ''GENERATOR_SAMPLED_EFFICIENCY'' (c\<lparr>generator_type := g, sample_point := k\<rparr>)
                           * param ''FUEL_LHV'' (c\<lparr>generator_type := g\<rparr>))"
  defines "slope \<equiv> \<lambda>k c. if p (k + 1) (origin\<lparr>generator_type := g\<rparr>) - p k (origin\<lparr>generator_type := g\<rparr>) \<noteq> 0
                           then (fc (k + 1) c - fc k c) / (p (k + 1) c - p k c) else 0"
  assumes pl: "partial_load settings"
      and one: "generator_types S = [g]"
      and ys: "years S = [y0..y1]" "y0 \<le> y1"
      and d: "0 < d"
      and st: "(y1 - y0) div d < int (length (steps S))"
  shows "\<exists>m. add_generator_fuel_consumption_constraints settings S param n_samples model = Inr m
     \<and> (\<forall>y \<in> set (years S). \<forall>k \<in> set (map int [0..<n_samples - 1]).
           has_constraint m
             (''Partial Load Constraint - Segment {seg}, Year {year}, Type {gen}'',
              [Sample_points k, Years y, Generator_types g])
             (\<lambda>v c. v ''generator_fuel_consumption'' (c\<lparr>year := y, generator_type := g\<rparr>))
             GE
             (\<lambda>v c. slope k c
                      * (v ''generator_energy_production'' (c\<lparr>year := y, generator_type := g\<rparr>)
                         - p k c * v ''generator_units''
                                     (c\<lparr>step := steps S ! nat ((y - y0) div d), generator_type := g\<rparr>))
                    + fc k c * v ''generator_units''
                                 (c\<lparr>step := steps S ! nat ((y - y0) div d), generator_type := g\<rparr>)))"
proof -
  let ?row = "\<lambda>y k. \<lparr>cname = (''Partial Load Constraint - Segment {seg}, Year {year}, Type {gen}'',
                               [Sample_points k, Years y, Generator_types g]),
                      lhs = (\<lambda>v c. v ''generator_fuel_consumption'' (c\<lparr>year := y, generator_type := g\<rparr>)),
                      sense = GE,
                      rhs = (\<lambda>v c. slope k c
                      * (v ''generator_energy_production'' (c\<lparr>year := y, generator_type := g\<rparr>)
                         - p k c * v ''generator_units''
                                     (c\<lparr>step := steps S ! nat ((y - y0) div d), generator_type := g\<rparr>))
                    + fc k c * v ''generator_units''
                                 (c\<lparr>step := steps S ! nat ((y - y0) div d), generator_type := g\<rparr>))\<rparr>"
  let ?tuples = "map (\<lambda>i. (i + 1, steps S ! nat (i div d))) (map int [0..<nat (y1 - y0 + 1)])"
  let ?segs = "map int [0..<n_samples - 1]"
  let ?m = "model @ concat (map (\<lambda>y. concat (map (\<lambda>g. concat (map (\<lambda>k. [?row y k]) ?segs)) [g])) (years S))"
  have seg: "partial_load_segment_body S param y (steps S ! nat ((y - y0) div d)) g k m
               = Inr (m @ [?row y k])" for y k m
    by (auto simp: partial_load_segment_body_def truth_value_def one Let_def ebind_def
        add_constraints_def asel_def expr_defs p_def fc_def slope_def coords_update_order
        intro!: ext)
  have gen: "fuel_gen_body settings S param n_samples y (steps S ! nat ((y - y0) div d)) g' m
               = Inr (m @ concat (map (\<lambda>k. [?row y k]) ?segs))" if "g' \<in> set [g]" for y g' m
  proof -
    from that have g': "g' = g" by simp
    have "for_each ?segs (partial_load_segment_body S param y (steps S ! nat ((y - y0) div d)) g) m
            = Inr (m @ concat (map (\<lambda>k. [?row y k]) ?segs))"
      by (rule for_each_appends) (rule seg)
    then show ?thesis
      using pl by (simp add: fuel_gen_body_def Let_def g')
  qed
  have yr: "fuel_year_body settings S param n_samples ?tuples y m
              = Inr (m @ concat (map (\<lambda>g. concat (map (\<lambda>k. [?row y k]) ?segs)) [g]))"
    if "y \<in> set (years S)" for y m
  proof -
    have "step_of_year S ?tuples y = Inr (steps S ! nat ((y - y0) div d))"
      by (rule step_of_year_consecutive[OF ys that])
    moreover have "for_each [g]
                     (fuel_gen_body settings S param n_samples y (steps S ! nat ((y - y0) div d))) m
                   = Inr (m @ concat (map (\<lambda>g. concat (map (\<lambda>k. [?row y k]) ?segs)) [g]))"
      by (rule for_each_appends) (rule gen)
    ultimately show ?thesis
      by (simp only: fuel_year_body_def ebind_def sum.case one)
  qed
  have tuples: "years_steps_tuples 1 S d = Inr ?tuples"
    by (rule years_steps_tuples_consecutive[OF ys d st])
  have loop: "for_each (years S) (fuel_year_body settings S param n_samples ?tuples) model = Inr ?m"
    by (rule for_each_appends) (rule yr)
  have res: "add_generator_fuel_consumption_constraints settings S param n_samples model = Inr ?m"
    unfolding add_generator_fuel_consumption_constraints_def d_def[symmetric]
    by (simp only: tuples ebind_def sum.case loop)
  have "has_constraint ?m (cname (?row y k)) (lhs (?row y k)) GE (rhs (?row y k))"
    if "y \<in> set (years S)" "k \<in> set ?segs" for y k
    using that
    by (intro has_constraint_append disjI2 has_constraint_concat[where x = y]
              has_constraint_concat[where x = g] has_constraint_concat[where x = k]
              has_constraint_Cons disjI1) simp_all
  then show ?thesis
    unfolding res by simp
qed

section \<open>Claims about the energy balance\<close>



















section \<open>Float64 rounding\<close>

lemma real_of_int_pow2:
  "a \<le> 2 ^ n \<Longrightarrow> real_of_int a \<le> 2 ^ n"
  "a < 2 ^ n \<Longrightarrow> real_of_int a < 2 ^ n"
  "2 ^ n \<le> a \<Longrightarrow> 2 ^ n \<le> real_of_int a"
  "a \<le> 2 ^ n - 1 \<Longrightarrow> real_of_int a \<le> 2 ^ n - 1"
proof -
  show "a \<le> 2 ^ n \<Longrightarrow> real_of_int a \<le> 2 ^ n"
    using of_int_le_iff[where 'a = real, of a "2 ^ n"] by simp
  show "a < 2 ^ n \<Longrightarrow> real_of_int a < 2 ^ n"
    using of_int_less_iff[where 'a = real, of a "2 ^ n"] by simp
  show "2 ^ n \<le> a \<Longrightarrow> 2 ^ n \<le> real_of_int a"
    using of_int_le_iff[where 'a = real, of "2 ^ n" a] by simp
  show "a \<le> 2 ^ n - 1 \<Longrightarrow> real_of_int a \<le> 2 ^ n - 1"
    using of_int_le_iff[where 'a = real, of a "2 ^ n - 1"] by simp
qed

lemma round_half_even_of_int: "round_half_even (of_int k) = k"
  by (simp add: round_half_even_def)

lemma round_half_even_bounds:
  "\<lfloor>x\<rfloor> \<le> round_half_even x" "round_half_even x \<le> \<lceil>x\<rceil>"
proof -
  show "\<lfloor>x\<rfloor> \<le> round_half_even x" by (simp add: round_half_even_def Let_def)
  show "round_half_even x \<le> \<lceil>x\<rceil>"
  proof (cases "x = of_int \<lfloor>x\<rfloor>")
    case True
    then show ?thesis by (simp add: round_half_even_def Let_def)
  next
    case False
    then have "\<lceil>x\<rceil> = \<lfloor>x\<rfloor> + 1" by (simp add: ceiling_altdef)
    then show ?thesis by (simp add: round_half_even_def Let_def)
  qed
qed

lemma round_half_even_abs_le:
  assumes "\<bar>x\<bar> \<le> of_int N"
  shows "\<bar>round_half_even x\<bar> \<le> N"
proof -
  have "- of_int N \<le> x" "x \<le> of_int N" using assms by linarith+
  then have "- N \<le> \<lfloor>x\<rfloor>" "\<lceil>x\<rceil> \<le> N" by (simp_all add: le_floor_iff ceiling_le_iff)
  with round_half_even_bounds[of x] show ?thesis by linarith
qed

lemma binary_exponent_bounds:
  assumes "x \<noteq> 0"
  shows "2 powi binary_exponent x \<le> \<bar>x\<bar>" and "\<bar>x\<bar> < 2 powi (binary_exponent x + 1)"
proof -
  have "2 powi binary_exponent x \<le> \<bar>x\<bar> \<and> \<bar>x\<bar> < 2 powi (binary_exponent x + 1)"
  proof (cases "1 \<le> \<bar>x\<bar>")
    case True
    let ?n = "\<lfloor>\<bar>x\<bar>\<rfloor>"
    have n: "0 < ?n" using True by simp
    from bitlen_bounds[OF n] have b: "2 ^ nat (bitlen ?n - 1) \<le> ?n" "?n < 2 ^ nat (bitlen ?n)" by simp_all
    have ge1: "1 \<le> bitlen ?n" using n by (simp add: bitlen_alt_def)
    have e: "binary_exponent x = bitlen ?n - 1" using True by (simp add: binary_exponent_def)
    have "(2::real) ^ nat (bitlen ?n - 1) \<le> of_int ?n"
      using b(1) by (rule real_of_int_pow2)
    also have "\<dots> \<le> \<bar>x\<bar>" by simp
    finally have lo: "2 powi binary_exponent x \<le> \<bar>x\<bar>"
      using ge1 by (simp add: e power_int_nonneg_exp)
    have "?n + 1 \<le> 2 ^ nat (bitlen ?n)" using b(2) by simp
    then have "of_int (?n + 1) \<le> (2::real) ^ nat (bitlen ?n)"
      by (rule real_of_int_pow2)
    moreover have "\<bar>x\<bar> < of_int (?n + 1)" by linarith
    ultimately have "\<bar>x\<bar> < (2::real) ^ nat (bitlen ?n)" by linarith
    then have hi: "\<bar>x\<bar> < 2 powi (binary_exponent x + 1)"
      using ge1 by (simp add: e power_int_nonneg_exp)
    from lo hi show ?thesis by simp
  next
    case False
    let ?u = "1 / \<bar>x\<bar>"
    let ?N = "\<lceil>?u\<rceil> - 1"
    have x: "0 < \<bar>x\<bar>" "\<bar>x\<bar> < 1" using False assms by simp_all
    then have u: "1 < ?u" by simp
    then have N: "0 < ?N" by (simp add: less_ceiling_iff)
    from bitlen_bounds[OF N] have b: "2 ^ nat (bitlen ?N - 1) \<le> ?N" "?N < 2 ^ nat (bitlen ?N)" by simp_all
    have ge1: "1 \<le> bitlen ?N" using N by (simp add: bitlen_alt_def)
    have e: "binary_exponent x = - bitlen ?N" using False by (simp add: binary_exponent_def)
    have Nu: "of_int ?N < ?u" "?u \<le> of_int ?N + 1" by linarith+
    have "?N + 1 \<le> 2 ^ nat (bitlen ?N)" using b(2) by simp
    then have "of_int (?N + 1) \<le> (2::real) ^ nat (bitlen ?N)"
      by (rule real_of_int_pow2)
    then have "of_int ?N + 1 \<le> (2::real) ^ nat (bitlen ?N)"
      by (simp only: of_int_add of_int_1)
    with Nu(2) have "?u \<le> 2 ^ nat (bitlen ?N)" by (rule order_trans)
    then have "1 \<le> 2 ^ nat (bitlen ?N) * \<bar>x\<bar>" using x(1) by (simp add: field_simps)
    then have "1 / 2 ^ nat (bitlen ?N) \<le> \<bar>x\<bar>" by (simp add: field_simps)
    then have lo: "2 powi binary_exponent x \<le> \<bar>x\<bar>"
      using ge1 by (simp add: e power_int_minus power_int_nonneg_exp field_simps)
    have "(2::real) ^ nat (bitlen ?N - 1) \<le> of_int ?N"
      using b(1) by (rule real_of_int_pow2)
    with Nu(1) have "2 ^ nat (bitlen ?N - 1) < ?u" by linarith
    then have "2 ^ nat (bitlen ?N - 1) * \<bar>x\<bar> < 1" using x(1) by (simp add: field_simps)
    then have "\<bar>x\<bar> < 1 / 2 ^ nat (bitlen ?N - 1)" by (simp add: field_simps)
    moreover have "2 powi (binary_exponent x + 1) = 1 / (2::real) ^ nat (bitlen ?N - 1)"
    proof -
      have eq: "binary_exponent x + 1 = - (bitlen ?N - 1)" by (simp add: e)
      have "(2::real) powi (binary_exponent x + 1) = 2 powi (- (bitlen ?N - 1))"
        by (simp only: eq)
      also have "\<dots> = inverse (2 powi (bitlen ?N - 1))" by (rule power_int_minus)
      also have "(2::real) powi (bitlen ?N - 1) = 2 ^ nat (bitlen ?N - 1)"
        using ge1 by (simp add: power_int_nonneg_exp)
      finally show ?thesis by (simp add: inverse_eq_divide)
    qed
    ultimately have hi: "\<bar>x\<bar> < 2 powi (binary_exponent x + 1)" by simp
    from lo hi show ?thesis by simp
  qed
  then show "2 powi binary_exponent x \<le> \<bar>x\<bar>" and "\<bar>x\<bar> < 2 powi (binary_exponent x + 1)"
    by simp_all
qed

lemma binary_exponent_less:
  assumes "x \<noteq> 0" "\<bar>x\<bar> < 2 powi p"
  shows "binary_exponent x < p"
proof (rule ccontr)
  assume "\<not> binary_exponent x < p"
  then have "(2::real) powi p \<le> 2 powi binary_exponent x" by (intro power_int_increasing) simp_all
  with binary_exponent_bounds(1)[OF assms(1)] assms(2) show False by linarith
qed



lemma round_half_even_abs_ge:
  assumes "of_int M \<le> \<bar>x\<bar>"
  shows "M \<le> \<bar>round_half_even x\<bar>"
proof (cases "0 \<le> x")
  case True
  then have "M \<le> \<lfloor>x\<rfloor>" using assms by (simp add: le_floor_iff)
  with round_half_even_bounds(1)[of x] show ?thesis by linarith
next
  case False
  then have "x \<le> - of_int M" using assms by linarith
  then have "\<lceil>x\<rceil> \<le> - M" by (simp add: ceiling_le_iff)
  with round_half_even_bounds(2)[of x] show ?thesis by linarith
qed

lemma round_half_even_below_half:
  assumes "\<bar>x\<bar> < of_int N - 1 / 2"
  shows "\<bar>round_half_even x\<bar> \<le> N - 1"
proof -
  let ?n = "\<lfloor>x\<rfloor>"
  have up: "round_half_even x \<le> N - 1"
  proof (cases "x - of_int ?n < 1 / 2")
    case True
    have "x < of_int N" using assms by linarith
    then have "?n < N" by (simp add: floor_less_iff)
    with True show ?thesis by (simp add: round_half_even_def Let_def)
  next
    case False
    have "of_int ?n \<le> x - 1 / 2" using False by linarith
    also have "\<dots> < of_int N - 1" using assms by linarith
    finally have "of_int ?n < (of_int (N - 1) :: real)" by simp
    then have "?n < N - 1" by (simp only: of_int_less_iff)
    with round_half_even_bounds(2)[of x] show ?thesis
      by (simp add: round_half_even_def Let_def)
  qed
  have lo: "- (N - 1) \<le> round_half_even x"
  proof (cases "- of_int N + 1 \<le> x")
    case True
    then have "- N + 1 \<le> ?n" by (simp add: le_floor_iff)
    with round_half_even_bounds(1)[of x] show ?thesis by linarith
  next
    case False
    have x: "- of_int N + 1 / 2 < x" using assms by linarith
    have "- of_int N \<le> x" using x by linarith
    then have ge: "- N \<le> ?n" by (simp add: le_floor_iff)
    have "x < of_int (- N + 1)" using False by simp
    then have "?n < - N + 1" by (simp only: floor_less_iff)
    with ge have n: "?n = - N" by linarith
    have "1 / 2 < x - of_int ?n" using x by (simp add: n)
    then show ?thesis by (simp add: round_half_even_def Let_def n)
  qed
  from up lo show ?thesis by linarith
qed

lemma round_half_even_above_half:
  assumes N: "even N" and x: "of_int N - 1 / 2 \<le> \<bar>x\<bar>"
  shows "N \<le> \<bar>round_half_even x\<bar>"
proof (cases "0 \<le> x")
  case True
  let ?n = "\<lfloor>x\<rfloor>"
  have "of_int (N - 1) \<le> x" using x True by simp
  then have ge: "N - 1 \<le> ?n" by (simp only: le_floor_iff)
  show ?thesis
  proof (cases "?n = N - 1")
    case n: True
    have r: "1 / 2 \<le> x - of_int ?n" using x True by (simp add: n)
    have "odd ?n" using N by (simp add: n)
    with r have "round_half_even x = ?n + 1" by (simp add: round_half_even_def Let_def)
    then show ?thesis by (simp add: n)
  next
    case False
    with ge have "N \<le> ?n" by simp
    with round_half_even_bounds(1)[of x] show ?thesis by linarith
  qed
next
  case False
  let ?n = "\<lfloor>x\<rfloor>"
  have xle: "x \<le> - of_int N + 1 / 2" using x False by linarith
  then have "x < of_int (- N + 1)" by simp
  then have lt: "?n < - N + 1" by (simp only: floor_less_iff)
  have "round_half_even x \<le> - N"
  proof (cases "?n = - N")
    case n: True
    have r: "x - of_int ?n \<le> 1 / 2" using xle by (simp add: n)
    have "even ?n" using N by (simp add: n)
    with r have "round_half_even x = ?n" by (simp add: round_half_even_def Let_def)
    then show ?thesis by (simp add: n)
  next
    case False
    with lt have "?n + 1 \<le> - N" by simp
    moreover have "round_half_even x \<le> ?n + 1" by (simp add: round_half_even_def Let_def)
    ultimately show ?thesis by linarith
  qed
  then show ?thesis by linarith
qed

lemma binary_exponent_ge:
  assumes "2 powi p \<le> \<bar>x\<bar>"
  shows "p \<le> binary_exponent x"
proof (rule ccontr)
  assume "\<not> p \<le> binary_exponent x"
  then have "(2::real) powi (binary_exponent x + 1) \<le> 2 powi p"
    by (intro power_int_increasing) simp_all
  moreover have "x \<noteq> 0"
  proof
    assume "x = 0"
    with assms have "(2::real) powi p \<le> 0" by simp
    moreover have "0 < (2::real) powi p" by (rule zero_less_power_int) simp
    ultimately show False by linarith
  qed
  ultimately show False
    using binary_exponent_bounds(2)[of x] assms by linarith
qed

lemma scaled_le:
  assumes "x \<noteq> 0"
  shows "\<bar>x / 2 powi max (binary_exponent x - 52) (- 1074)\<bar> \<le> 2 ^ 53"
proof -
  let ?q = "max (binary_exponent x - 52) (- 1074)"
  have pos: "0 < (2::real) powi ?q" by (simp add: zero_less_power_int)
  have "\<bar>x / 2 powi ?q\<bar> = \<bar>x\<bar> / 2 powi ?q" using pos by (simp add: abs_divide)
  also have "\<dots> \<le> 2 powi (binary_exponent x + 1) / 2 powi ?q"
    using binary_exponent_bounds(2)[OF assms] pos by (simp add: divide_right_mono)
  also have "\<dots> = 2 powi (binary_exponent x + 1 - ?q)"
    by (simp add: power_int_diff)
  also have "\<dots> \<le> 2 powi 53" by (intro power_int_increasing) simp_all
  finally show ?thesis by simp
qed

lemma nearest64_representable:
  assumes y: "y = of_int k * 2 powi q0" and k: "\<bar>k\<bar> < 2 ^ 53" and q0: "- 1074 \<le> q0"
  shows "nearest64 y = y"
proof (cases "y = 0")
  case True
  then show ?thesis by (simp add: nearest64_def)
next
  case False
  define q where "q = max (binary_exponent y - 52) (- 1074)"
  have "\<bar>y\<bar> = of_int \<bar>k\<bar> * 2 powi q0" by (simp add: y abs_mult)
  also have "\<dots> < 2 ^ 53 * 2 powi q0"
  proof -
    have "real_of_int \<bar>k\<bar> < 2 ^ 53" using k by (rule real_of_int_pow2)
    then show ?thesis by (intro mult_strict_right_mono) (simp_all add: zero_less_power_int)
  qed
  also have "\<dots> = 2 powi (53 + q0)" by (simp add: power_int_add)
  finally have "binary_exponent y < 53 + q0" by (rule binary_exponent_less[OF False])
  then have le: "q \<le> q0" using q0 by (simp add: q_def)
  have split: "(2::real) powi q0 = 2 ^ nat (q0 - q) * 2 powi q"
  proof -
    have "(2::real) powi q0 = 2 powi ((q0 - q) + q)" by simp
    also have "\<dots> = 2 powi (q0 - q) * 2 powi q" by (rule power_int_add) simp
    also have "(2::real) powi (q0 - q) = 2 ^ nat (q0 - q)" using le by (simp add: power_int_nonneg_exp)
    finally show ?thesis .
  qed
  have pos: "(2::real) powi q \<noteq> 0" by (simp add: power_int_eq_0_iff)
  have y': "y = real_of_int (k * 2 ^ nat (q0 - q)) * 2 powi q"
    by (subst y, subst split) simp
  then have "y / 2 powi q = real_of_int (k * 2 ^ nat (q0 - q))"
    using pos by (simp add: field_simps)
  then have "round_half_even (y / 2 powi q) = k * 2 ^ nat (q0 - q)"
    by (simp only: round_half_even_of_int)
  then have rt: "real_of_int (round_half_even (y / 2 powi q)) * 2 powi q = y"
    using y' by simp
  show ?thesis
    using False rt unfolding nearest64_def Let_def q_def by simp
qed

lemma nearest64_form:
  "\<exists>k q0. nearest64 x = of_int k * 2 powi q0 \<and> \<bar>k\<bar> < 2 ^ 53 \<and> - 1074 \<le> q0"
proof (cases "x = 0")
  case True
  have "nearest64 x = of_int 0 * 2 powi 0 \<and> \<bar>0::int\<bar> < 2 ^ 53 \<and> - 1074 \<le> (0::int)"
    by (simp add: True nearest64_def)
  then show ?thesis by blast
next
  case False
  let ?q = "max (binary_exponent x - 52) (- 1074)"
  let ?m = "round_half_even (x / 2 powi ?q)"
  have y: "nearest64 x = of_int ?m * 2 powi ?q"
    using False by (simp add: nearest64_def Let_def)
  have "\<bar>x / 2 powi ?q\<bar> \<le> of_int (2 ^ 53)" using scaled_le[OF False] by simp
  then have m: "\<bar>?m\<bar> \<le> 2 ^ 53" by (rule round_half_even_abs_le)
  show ?thesis
  proof (cases "\<bar>?m\<bar> < 2 ^ 53")
    case True
    with y show ?thesis by (intro exI[of _ ?m] exI[of _ ?q]) simp
  next
    case big: False
    define h :: int where "h = (if 0 \<le> ?m then 2 ^ 52 else - (2 ^ 52))"
    from big m have "\<bar>?m\<bar> = 2 ^ 53" by simp
    then have mh: "?m = 2 * h" by (simp add: h_def abs_if split: if_splits)
    have h: "\<bar>h\<bar> < 2 ^ 53" by (simp add: h_def)
    have "nearest64 x = real_of_int h * (2 * 2 powi ?q)" by (subst y, subst mh) simp
    also have "2 * (2::real) powi ?q = 2 powi (?q + 1)" by (rule power_int_add_1'[symmetric]) simp
    finally have "nearest64 x = of_int h * 2 powi (?q + 1)" .
    with h show ?thesis by (intro exI[of _ h] exI[of _ "?q + 1"]) simp
  qed
qed

lemma nearest64_idem: "nearest64 (nearest64 x) = nearest64 x"
  using nearest64_form[of x] nearest64_representable by blast

lemma round64_idem: "round64 x = Finite y \<Longrightarrow> round64 y = Finite y"
  by (auto simp: round64_def Let_def nearest64_idem split: if_splits)

lemma round64_of_int: "\<bar>k\<bar> < 2 ^ 53 \<Longrightarrow> round64 (of_int k) = Finite (of_int k)"
proof -
  assume k: "\<bar>k\<bar> < 2 ^ 53"
  then have "real_of_int \<bar>k\<bar> < 2 ^ 53" by (rule real_of_int_pow2)
  also have "\<dots> \<le> 2 powi 1024" by simp
  finally have fin: "\<bar>real_of_int k\<bar> < 2 powi 1024" by simp
  have "nearest64 (of_int k) = of_int k"
    using k by (intro nearest64_representable[where k = k and ?q0.0 = 0]) simp_all
  with fin show ?thesis by (simp add: round64_def)
qed

lemma overflow_bounds:
  fixes B :: real
  defines "B \<equiv> 2 powi 971"
  shows "(2::real) powi 1024 = 2 ^ 53 * B"
    and "(2::real) powi 1024 - 2 powi 970 = (2 ^ 53 - 1 / 2) * B"
    and "(2::real) powi 1023 = 2 ^ 52 * B"
proof -
  have "(2::real) powi (53 + 971) = 2 powi 53 * 2 powi 971" by (rule power_int_add) simp
  moreover have "(53::int) + 971 = 1024" by simp
  ultimately have "(2::real) powi 1024 = 2 powi 53 * 2 powi 971" by (simp only:)
  then show a: "(2::real) powi 1024 = 2 ^ 53 * B" by (simp only: B_def power_int_numeral)
  have "(2::real) powi (970 + 1) = 2 powi 970 * 2" by (rule power_int_add_1) simp
  moreover have "(970::int) + 1 = 971" by simp
  ultimately have "B = 2 powi 970 * 2" by (simp only: B_def)
  then have b: "(2::real) powi 970 = B / 2" by simp
  show "(2::real) powi 1024 - 2 powi 970 = (2 ^ 53 - 1 / 2) * B"
    unfolding a b by (simp add: algebra_simps)
  have "(2::real) powi (52 + 971) = 2 powi 52 * 2 powi 971" by (rule power_int_add) simp
  moreover have "(52::int) + 971 = 1023" by simp
  ultimately have "(2::real) powi 1023 = 2 powi 52 * 2 powi 971" by (simp only:)
  then show "(2::real) powi 1023 = 2 ^ 52 * B" by (simp only: B_def power_int_numeral)
qed

lemma nearest64_overflow_iff:
  "2 powi 1024 \<le> \<bar>nearest64 x\<bar> \<longleftrightarrow> 2 powi 1024 - 2 powi 970 \<le> \<bar>x\<bar>"
proof -
  define B :: real where "B = 2 powi 971"
  have B: "0 < B" by (simp add: B_def zero_less_power_int)
  note bounds = overflow_bounds[folded B_def]
  have "2 ^ 53 * B \<le> \<bar>nearest64 x\<bar> \<longleftrightarrow> (2 ^ 53 - 1 / 2) * B \<le> \<bar>x\<bar>"
  proof (cases "x = 0")
    case True
    then show ?thesis using B by (simp add: nearest64_def)
  next
    case False
    define e where "e = binary_exponent x"
    define q where "q = max (e - 52) (- 1074)"
    define m where "m = round_half_even (x / 2 powi q)"
    have y: "\<bar>nearest64 x\<bar> = of_int \<bar>m\<bar> * 2 powi q"
      using False by (simp add: nearest64_def Let_def m_def q_def e_def abs_mult)
    have pos: "0 < (2::real) powi q" by (simp add: zero_less_power_int)
    have z: "\<bar>x / 2 powi q\<bar> = \<bar>x\<bar> / 2 powi q" using pos by (simp add: abs_divide)
    have lo: "2 powi e \<le> \<bar>x\<bar>" and hi: "\<bar>x\<bar> < 2 powi (e + 1)"
      using binary_exponent_bounds[OF False] by (simp_all add: e_def)
    have m53: "\<bar>m\<bar> \<le> 2 ^ 53"
    proof -
      have "\<bar>x / 2 powi q\<bar> \<le> of_int (2 ^ 53)"
        using scaled_le[OF False] by (simp add: q_def e_def)
      then show ?thesis unfolding m_def by (rule round_half_even_abs_le)
    qed
    consider "e \<le> 1022" | "e = 1023" | "1024 \<le> e" by linarith
    then show ?thesis
    proof cases
      case 1
      then have q: "q \<le> 970" by (simp add: q_def)
      have "real_of_int \<bar>m\<bar> \<le> 2 ^ 53" using m53 by (rule real_of_int_pow2)
      then have "real_of_int \<bar>m\<bar> * 2 powi q \<le> 2 ^ 53 * 2 powi q"
        using pos by (intro mult_right_mono) simp_all
      also have "\<dots> = 2 powi 53 * 2 powi q" by (simp only: power_int_numeral)
      also have "\<dots> = 2 powi (53 + q)" by (rule power_int_add[symmetric]) simp
      also have "\<dots> \<le> 2 powi 1023" using q by (intro power_int_increasing) simp_all
      also have "\<dots> = 2 ^ 52 * B" by (rule bounds(3))
      also have "\<dots> < 2 ^ 53 * B" using B by simp
      finally have small: "\<not> 2 ^ 53 * B \<le> \<bar>nearest64 x\<bar>" by (simp only: y not_le)
      have "(2::real) powi (e + 1) \<le> 2 powi 1023" using 1 by (intro power_int_increasing) simp_all
      with hi have "\<bar>x\<bar> < 2 powi 1023" by linarith
      also have "(2::real) powi 1023 = 2 ^ 52 * B" by (rule bounds(3))
      also have "\<dots> \<le> (2 ^ 53 - 1 / 2) * B" using B by simp
      finally have "\<not> (2 ^ 53 - 1 / 2) * B \<le> \<bar>x\<bar>" by (simp only: not_le)
      with small show ?thesis by simp
    next
      case 2
      then have q: "q = 971" by (simp add: q_def)
      have zB: "\<bar>x / 2 powi q\<bar> = \<bar>x\<bar> / B" using z unfolding q B_def .
      show ?thesis
      proof (cases "(2 ^ 53 - 1 / 2) * B \<le> \<bar>x\<bar>")
        case True
        then have "2 ^ 53 - 1 / 2 \<le> \<bar>x\<bar> / B" using B by (simp add: field_simps)
        then have "real_of_int (2 ^ 53) - 1 / 2 \<le> \<bar>x / 2 powi q\<bar>" unfolding zB by simp
        then have "2 ^ 53 \<le> \<bar>m\<bar>" unfolding m_def by (intro round_half_even_above_half) simp_all
        then have "(2::real) ^ 53 \<le> of_int \<bar>m\<bar>" by (rule real_of_int_pow2)
        then have "2 ^ 53 * B \<le> of_int \<bar>m\<bar> * B"
          using B by (intro mult_right_mono) simp_all
        then have "2 ^ 53 * B \<le> \<bar>nearest64 x\<bar>" by (simp only: y q B_def)
        with True show ?thesis by simp
      next
        case False
        then have "\<bar>x\<bar> / B < 2 ^ 53 - 1 / 2" using B by (simp add: field_simps)
        then have "\<bar>x / 2 powi q\<bar> < real_of_int (2 ^ 53) - 1 / 2" unfolding zB by simp
        then have "\<bar>m\<bar> \<le> 2 ^ 53 - 1" unfolding m_def by (rule round_half_even_below_half)
        then have "real_of_int \<bar>m\<bar> \<le> 2 ^ 53 - 1"
          by (rule real_of_int_pow2)
        then have "of_int \<bar>m\<bar> * B \<le> (2 ^ 53 - 1) * B"
          using B by (intro mult_right_mono) simp_all
        also have "\<dots> < 2 ^ 53 * B" using B by simp
        finally have "\<not> 2 ^ 53 * B \<le> \<bar>nearest64 x\<bar>" by (simp only: y q B_def not_le)
        with False show ?thesis by simp
      qed
    next
      case 3
      then have q: "q = e - 52" by (simp add: q_def)
      have "(2::real) powi 1024 \<le> 2 powi e" using 3 by (intro power_int_increasing) simp_all
      then have e: "2 ^ 53 * B \<le> 2 powi e" by (simp only: bounds(1))
      have "(2 ^ 53 - 1 / 2) * B \<le> 2 ^ 53 * B" using B by simp
      with e lo have big: "(2 ^ 53 - 1 / 2) * B \<le> \<bar>x\<bar>" by linarith
      have "real_of_int (2 ^ 52) = 2 powi (e - q)" by (simp add: q)
      also have "\<dots> = 2 powi e / 2 powi q" by (simp add: power_int_diff)
      also have "\<dots> \<le> \<bar>x\<bar> / 2 powi q" using lo pos by (simp add: divide_right_mono)
      finally have "real_of_int (2 ^ 52) \<le> \<bar>x / 2 powi q\<bar>" by (simp add: z)
      then have "2 ^ 52 \<le> \<bar>m\<bar>" unfolding m_def by (rule round_half_even_abs_ge)
      then have "(2::real) ^ 52 \<le> of_int \<bar>m\<bar>" by (rule real_of_int_pow2)
      then have scaled: "2 ^ 52 * 2 powi q \<le> of_int \<bar>m\<bar> * (2::real) powi q"
        using pos by (intro mult_right_mono) simp_all
      have eq: "2 ^ 52 * (2::real) powi q = 2 powi e"
      proof -
        have "(2::real) powi e = 2 powi (52 + q)" by (simp add: q)
        also have "\<dots> = 2 powi 52 * 2 powi q" by (rule power_int_add) simp
        finally show ?thesis by simp
      qed
      from scaled have "2 powi e \<le> of_int \<bar>m\<bar> * (2::real) powi q" unfolding eq .
      then have "2 powi e \<le> \<bar>nearest64 x\<bar>" unfolding y .
      with e have "2 ^ 53 * B \<le> \<bar>nearest64 x\<bar>" by linarith
      with big show ?thesis by simp
    qed
  qed
  then show ?thesis
    apply (subst bounds(2))
    apply (subst bounds(1))
    apply assumption
    done
qed

lemma float64_of_int_small: "\<bar>k\<bar> < 2 ^ 53 \<Longrightarrow> float64_of_int k = Inr (of_int k)"
  using round64_of_int[of k]
  by (simp add: float64_of_int_def round64_def Let_def split: if_splits)

lemma float64_of_int_mono:
  assumes "float64_of_int k = Inr b" and "\<bar>j\<bar> \<le> \<bar>k\<bar>"
  shows "float64_of_int j = Inr (nearest64 (of_int j))"
proof -
  have "\<not> 2 powi 1024 - 2 powi 970 \<le> \<bar>real_of_int k\<bar>"
    using assms(1) unfolding float64_of_int_def Let_def nearest64_overflow_iff
    by (simp split: if_splits)
  moreover have "\<bar>real_of_int j\<bar> \<le> \<bar>real_of_int k\<bar>" using assms(2) by linarith
  ultimately have "\<not> 2 powi 1024 - 2 powi 970 \<le> \<bar>real_of_int j\<bar>" by linarith
  then show ?thesis
    unfolding float64_of_int_def Let_def nearest64_overflow_iff by simp
qed

lemma nearest64_of_int: "\<bar>k\<bar> < 2 ^ 53 \<Longrightarrow> nearest64 (of_int k) = of_int k"
  by (rule nearest64_representable[where k = k and ?q0.0 = 0]) simp_all

lemma round64_numeral: "numeral n < (2::int) ^ 53 \<Longrightarrow> round64 (numeral n) = Finite (numeral n)"
  using round64_of_int[of "numeral n"] by simp

lemma round64_0: "round64 0 = Finite 0"
  using round64_of_int[of 0] by simp

lemma np_sub_float64: "np_sub (Finite a) (Finite b) = Finite x \<Longrightarrow> float64 x"
  by (simp add: float64_def round64_idem)

lemma np_div_1: "float64 a \<Longrightarrow> np_div (Finite a) 1 = Finite a"
  by (simp add: float64_def)

lemma np_mul_0: "np_mul 0 (Finite a) = Finite 0"
  by (simp add: round64_0)

lemma np_mul_1: "float64 a \<Longrightarrow> np_mul 1 (Finite a) = Finite a"
  by (simp add: float64_def)

lemmas np_simps = np_add.simps np_sub.simps np_div.simps np_mul.simps

declare np_simps [simp del]

section \<open>Claims about the Pareto sweep\<close>

lemma sweep_append:
  "sweep body (xs @ ys) st =
     (case sweep body xs st of
        (m, Inl e) \<Rightarrow> (m, Inl e)
      | (m, Inr acc) \<Rightarrow> sweep body ys (m, acc))"
  by (induction xs arbitrary: st) (auto split: prod.splits sum.splits)

lemma linopy_model_update_order:
  fixes m :: linopy_model
  shows "m\<lparr>co2_thresholds := k, objective := e\<rparr> = m\<lparr>objective := e, co2_thresholds := k\<rparr>"
    and "m\<lparr>objective := e, built_constraints := b\<rparr> = m\<lparr>built_constraints := b, objective := e\<rparr>"
    and "m\<lparr>co2_thresholds := k, built_constraints := b\<rparr> = m\<lparr>built_constraints := b, co2_thresholds := k\<rparr>"
  by simp_all

lemma sweep_body_success:
  assumes "available"
      and "co2_thresholds m = []"
      and "float64_of_int i = Inr f"
      and "run (m\<lparr>objective := Some cost,
                  co2_thresholds :=
                    [\<lparr>threshold_index = i,
                      threshold_lhs = weighted_sum S param ''scenario_co2_emission'',
                      threshold_sense = LE,
                      threshold_rhs = np_add lo (np_mul f stp)\<rparr>]\<rparr>) = Inr s"
      and "s cv = Some c"
  shows "sweep_body S param available run cost cv lo stp i (m, sols, npc, co2)
           = (m\<lparr>objective := Some cost\<rparr>,
              Inr (sols @ [Some s], npc @ [c], co2 @ [np_add lo (np_mul f stp)]))"
  using assms
  by (simp add: sweep_body_def Let_def solve_def get_values_def add_co2_threshold_def
      add_objective_def remove_co2_threshold_def linopy_model_update_order)

lemma sweep_body_raises:
  assumes "available"
      and "co2_thresholds m = []"
      and "float64_of_int i = Inr f"
      and "run (m\<lparr>objective := Some cost,
                  co2_thresholds :=
                    [\<lparr>threshold_index = i,
                      threshold_lhs = weighted_sum S param ''scenario_co2_emission'',
                      threshold_sense = LE,
                      threshold_rhs = np_add lo (np_mul f stp)\<rparr>]\<rparr>) = Inl e"
  shows "sweep_body S param available run cost cv lo stp i (m, sols, npc, co2)
           = (m\<lparr>objective := Some cost,
                co2_thresholds :=
                  [\<lparr>threshold_index = i,
                    threshold_lhs = weighted_sum S param ''scenario_co2_emission'',
                    threshold_sense = LE,
                    threshold_rhs = np_add lo (np_mul f stp)\<rparr>]\<rparr>,
              Inl (RuntimeError (''Error during solving: '' @ e)))"
  using assms
  by (simp add: sweep_body_def Let_def solve_def add_co2_threshold_def add_objective_def
      linopy_model_update_order)

lemma sweep_success:
  assumes av: "available"
      and m: "co2_thresholds m = []"
      and conv: "\<And>i. i \<in> set js \<Longrightarrow> float64_of_int i = Inr (f i)"
      and ok: "\<And>i. i \<in> set js \<Longrightarrow>
                 run (m\<lparr>objective := Some cost,
                        co2_thresholds :=
                          [\<lparr>threshold_index = i,
                            threshold_lhs = weighted_sum S param ''scenario_co2_emission'',
                            threshold_sense = LE,
                            threshold_rhs = np_add lo (np_mul (f i) stp)\<rparr>]\<rparr>)
                   = Inr (s i) \<and> s i cv = Some (c i)"
  shows "sweep (sweep_body S param available run cost cv lo stp) js (m, sols, npc, co2)
           = ((if js = [] then m else m\<lparr>objective := Some cost\<rparr>),
              Inr (sols @ map (\<lambda>i. Some (s i)) js, npc @ map c js,
                   co2 @ map (\<lambda>i. np_add lo (np_mul (f i) stp)) js))"
  using m conv ok
proof (induction js arbitrary: m sols npc co2)
  case Nil
  then show ?case by simp
next
  case (Cons j js)
  let ?m' = "m\<lparr>objective := Some cost\<rparr>"
  have step: "sweep_body S param available run cost cv lo stp j (m, sols, npc, co2)
           = (?m', Inr (sols @ [Some (s j)], npc @ [c j], co2 @ [np_add lo (np_mul (f j) stp)]))"
    using Cons.prems by (intro sweep_body_success av) simp_all
  have m': "co2_thresholds ?m' = []" using Cons.prems by simp
  have conv': "float64_of_int i = Inr (f i)" if "i \<in> set js" for i
    using Cons.prems(2)[of i] that by simp
  have ok': "run (?m'\<lparr>objective := Some cost,
                      co2_thresholds :=
                        [\<lparr>threshold_index = i,
                          threshold_lhs = weighted_sum S param ''scenario_co2_emission'',
                          threshold_sense = LE,
                          threshold_rhs = np_add lo (np_mul (f i) stp)\<rparr>]\<rparr>)
                   = Inr (s i) \<and> s i cv = Some (c i)" if "i \<in> set js" for i
    using Cons.prems(3)[of i] that by simp
  show ?case
    using Cons.IH[OF m' conv' ok'] by (simp add: step)
qed

lemma float64_of_int_below:
  assumes "float64_of_int (n - 1) = Inr b" and "0 \<le> i" and "i < n"
  shows "float64_of_int i = Inr (nearest64 (of_int i))"
  using assms(2,3) by (intro float64_of_int_mono[OF assms(1)]) simp

lemma float64_of_int_value: "float64_of_int k = Inr b \<Longrightarrow> b = nearest64 (of_int k)"
  by (simp add: float64_of_int_def Let_def split: if_splits)

lemma zip_maps_same: "zip (map f xs) (map g xs) = map (\<lambda>x. (f x, g x)) xs"
  by (induction xs) simp_all

lemma example_objectives:
  "weighted_sum example_sets example_param ''scenario_net_present_cost'' probe origin = 0"
  "weighted_sum example_sets example_param ''scenario_co2_emission'' probe origin = 1"
  by (simp_all add: weighted_sum_def esum_def example_sets_def example_param_def probe_def expr_defs)

lemma upto_split_at:
  assumes "lo \<le> i" "i \<le> hi"
  shows "[lo..hi] = [lo..i - 1] @ i # [i + 1..hi]"
  using assms by (metis upto_rec1 upto_split1)

text \<open>
  C1 (as amended). Let \<open>num_points >= 2\<close> with \<open>num_points - 1\<close> in the range of float64, the
  solver be available, and the model hold no emission threshold at the start. Suppose the
  solver returns \<open>s1\<close> with finite total emissions \<open>max_co2\<close> on the built model with the
  cost objective and no threshold, and \<open>s2\<close> with finite total emissions \<open>min_co2\<close> on the
  built model with the emissions objective. Let \<open>threshold i\<close> be
  \<open>min_co2 + i * ((max_co2 - min_co2) / (num_points - 1))\<close> as float64 arithmetic computes
  it, let every threshold be finite, and suppose that for every \<open>i\<close> in \<open>0..num_points-1\<close>
  the solver returns a solution of cost \<open>c i\<close> on the built model with the cost objective
  and the single constraint \<open>co2_threshold_i\<close>, which is \<open>total_emissions <= threshold i\<close>.
  Then the call returns the pairs (threshold, cost) for \<open>i = 0, ..., num_points-1\<close> in this
  order, after the two anchor solutions, and leaves the model without any threshold. For
  \<open>num_points = 2\<close> and a float64 \<open>min_co2\<close> the two thresholds are \<open>min_co2\<close> and the float64
  sum \<open>min_co2 + (max_co2 - min_co2)\<close>; this sum is \<open>max_co2\<close> where \<open>max_co2\<close> is a float64
  and \<open>max_co2 - min_co2\<close> is computed without rounding.
\<close>

theorem pareto_sweep:
  fixes settings :: project_parameters and S :: sets and param :: dataset
    and built :: constraints and num_points :: int and run :: solver and model0 :: linopy_model
    and s1 s2 :: solution and s :: "int \<Rightarrow> solution" and c :: "int \<Rightarrow> npfloat"
    and max_co2 min_co2 divisor :: real
  defines "cost \<equiv> (if optimization_goal (project settings) = 0
                     then weighted_sum S param ''scenario_net_present_cost''
                     else weighted_sum S param ''total_scenario_variable_cost_nonact'')"
  defines "cost_name \<equiv> (if optimization_goal (project settings) = 0
                          then ''Net Present Cost'' else ''Total Variable Cost'')"
  defines "with_cost \<equiv> \<lambda>caps. model0\<lparr>built_constraints := built, objective := Some cost,
                                        co2_thresholds := caps\<rparr>"
  defines "with_emissions \<equiv> model0\<lparr>built_constraints := built,
                                     objective := Some (weighted_sum S param ''scenario_co2_emission''),
                                     co2_thresholds := []\<rparr>"
  defines "emission_step \<equiv> np_div (np_sub (Finite max_co2) (Finite min_co2)) divisor"
  defines "threshold \<equiv> \<lambda>i. np_add (Finite min_co2) (np_mul (nearest64 (of_int i)) emission_step)"
  defines "co2_threshold \<equiv> \<lambda>i. \<lparr>threshold_index = i,
                                   threshold_lhs = weighted_sum S param ''scenario_co2_emission'',
                                   threshold_sense = LE, threshold_rhs = threshold i\<rparr>"
  assumes n: "2 \<le> num_points"
      and conv: "float64_of_int (num_points - 1) = Inr divisor"
      and av: "available"
      and fresh: "co2_thresholds model0 = []"
      and a1: "run (with_cost []) = Inr s1" "s1 ''Total CO2 Emissions'' = Some (Finite max_co2)"
      and a2: "run with_emissions = Inr s2" "s2 ''Total CO2 Emissions'' = Some (Finite min_co2)"
      and fin: "\<And>i. 0 \<le> i \<Longrightarrow> i < num_points \<Longrightarrow> threshold i \<noteq> NonFinite"
      and sw: "\<And>i. 0 \<le> i \<Longrightarrow> i < num_points \<Longrightarrow>
                 run (with_cost [co2_threshold i]) = Inr (s i) \<and> s i cost_name = Some (c i)"
  shows "solve_multi_objective settings S param (Inr built) num_points available run model0
           = (with_cost [],
              Inr (map (\<lambda>i. (threshold i, c i)) [0..num_points - 1],
                   Some s1 # Some s2 # map (\<lambda>i. Some (s i)) [0..num_points - 1]))
         \<and> (num_points = 2 \<and> float64 min_co2 \<longrightarrow>
              map threshold [0..num_points - 1]
                = [Finite min_co2,
                   np_add (Finite min_co2) (np_sub (Finite max_co2) (Finite min_co2))])
         \<and> (num_points = 2 \<and> float64 min_co2 \<and> float64 max_co2 \<and> float64 (max_co2 - min_co2) \<longrightarrow>
              map threshold [0..num_points - 1] = [Finite min_co2, Finite max_co2])"
proof -
  have m1: "add_objective cost (model0\<lparr>built_constraints := built\<rparr>) = with_cost []"
    by (rule linopy_model.equality) (simp_all add: add_objective_def with_cost_def fresh)
  have m2: "add_objective (weighted_sum S param ''scenario_co2_emission'') (with_cost []) = with_emissions"
    by (simp add: add_objective_def with_cost_def with_emissions_def)
  have caps: "with_emissions\<lparr>objective := Some cost, co2_thresholds := k\<rparr> = with_cost k" for k
    by (simp add: with_emissions_def with_cost_def)
  have ne: "[0..num_points - 1] \<noteq> []" using n by (simp add: upto.simps)
  have loop: "sweep (sweep_body S param available run cost cost_name (Finite min_co2) emission_step)
                [0..num_points - 1] (with_emissions, [Some s1, Some s2], [], [])
              = (with_cost [],
                 Inr ([Some s1, Some s2] @ map (\<lambda>i. Some (s i)) [0..num_points - 1],
                      [] @ map c [0..num_points - 1],
                      [] @ map threshold [0..num_points - 1]))"
  proof -
    have "sweep (sweep_body S param available run cost cost_name (Finite min_co2) emission_step)
                [0..num_points - 1] (with_emissions, [Some s1, Some s2], [], [])
          = ((if [0..num_points - 1] = [] then with_emissions
              else with_emissions\<lparr>objective := Some cost\<rparr>),
             Inr ([Some s1, Some s2] @ map (\<lambda>i. Some (s i)) [0..num_points - 1],
                  [] @ map c [0..num_points - 1],
                  [] @ map (\<lambda>i. np_add (Finite min_co2) (np_mul (nearest64 (of_int i)) emission_step))
                         [0..num_points - 1]))"
    proof (rule sweep_success[OF av])
      show "co2_thresholds with_emissions = []" by (simp add: with_emissions_def)
    next
      fix i assume "i \<in> set [0..num_points - 1]"
      then have "0 \<le> i" "i < num_points" by simp_all
      then show "float64_of_int i = Inr (nearest64 (of_int i))"
        by (rule float64_of_int_below[OF conv])
    next
      fix i assume "i \<in> set [0..num_points - 1]"
      then have "0 \<le> i" "i < num_points" by simp_all
      from sw[OF this]
      show "run (with_emissions\<lparr>objective := Some cost,
                   co2_thresholds :=
                     [\<lparr>threshold_index = i,
                       threshold_lhs = weighted_sum S param ''scenario_co2_emission'',
                       threshold_sense = LE,
                       threshold_rhs = np_add (Finite min_co2)
                                         (np_mul (nearest64 (of_int i)) emission_step)\<rparr>]\<rparr>)
              = Inr (s i)
            \<and> s i cost_name = Some (c i)"
        by (simp only: caps co2_threshold_def threshold_def)
    qed
    moreover have "with_emissions\<lparr>objective := Some cost\<rparr> = with_cost []"
      by (simp add: with_emissions_def with_cost_def)
    ultimately show ?thesis using ne by (simp add: threshold_def)
  qed
  have main: "solve_multi_objective settings S param (Inr built) num_points available run model0
           = (with_cost [],
              Inr (map (\<lambda>i. (threshold i, c i)) [0..num_points - 1],
                   Some s1 # Some s2 # map (\<lambda>i. Some (s i)) [0..num_points - 1]))"
  proof -
    have p1: "solve available run (with_cost []) = Inr (Some s1)"
      by (simp add: solve_def av a1)
    have g1: "get_values (Some s1) ''Total CO2 Emissions'' = Inr (Finite max_co2)"
      by (simp add: get_values_def a1)
    have p2: "solve available run with_emissions = Inr (Some s2)"
      by (simp add: solve_def av a2)
    have g2: "get_values (Some s2) ''Total CO2 Emissions'' = Inr (Finite min_co2)"
      by (simp add: get_values_def a2)
    show ?thesis
      unfolding solve_multi_objective_def cost_def[symmetric] cost_name_def[symmetric]
      by (simp only: Let_def sum.case prod.case m1 p1 g1 m2 p2 g2 conv
          emission_step_def[symmetric] loop zip_maps_same append_Nil append_Cons)
  qed
  have two: "map threshold [0..num_points - 1]
               = [Finite min_co2, np_add (Finite min_co2) (np_sub (Finite max_co2) (Finite min_co2))]"
    if np: "num_points = 2" and lo: "float64 min_co2"
  proof -
    have d: "divisor = 1"
      using float64_of_int_value[OF conv] nearest64_of_int[of 1] by (simp add: np)
    have "threshold 0 \<noteq> NonFinite" using fin[of 0] n by simp
    then obtain e where e: "emission_step = Finite e"
      by (cases emission_step) (simp_all add: threshold_def np_simps)
    then obtain x where x: "np_sub (Finite max_co2) (Finite min_co2) = Finite x"
      unfolding emission_step_def
      by (cases "np_sub (Finite max_co2) (Finite min_co2)") (simp_all add: np_simps)
    have fx: "float64 x" using x by (rule np_sub_float64)
    have step: "emission_step = Finite x"
      unfolding emission_step_def x d by (rule np_div_1[OF fx])
    have n0: "nearest64 (of_int 0) = 0" and n1: "nearest64 (of_int 1) = 1"
      using nearest64_of_int[of 0] nearest64_of_int[of 1] by simp_all
    have t0: "threshold 0 = Finite min_co2"
      unfolding threshold_def step n0 np_mul_0 using lo by (simp add: float64_def np_simps)
    have t1: "threshold 1 = np_add (Finite min_co2) (np_sub (Finite max_co2) (Finite min_co2))"
      unfolding threshold_def step n1 np_mul_1[OF fx] x ..
    show ?thesis by (simp add: np upto.simps t0 t1)
  qed
  have exact: "map threshold [0..num_points - 1] = [Finite min_co2, Finite max_co2]"
    if np: "num_points = 2" and lo: "float64 min_co2" and hi: "float64 max_co2"
      and diff: "float64 (max_co2 - min_co2)"
  proof -
    have "np_add (Finite min_co2) (np_sub (Finite max_co2) (Finite min_co2)) = Finite max_co2"
      using hi diff by (simp add: float64_def np_simps)
    with two[OF np lo] show ?thesis by simp
  qed
  from main two exact show ?thesis by blast
qed

theorem pareto_sweep_witness:
  "solve_multi_objective example_settings example_sets example_param (Inr []) 2 True
     example_solver empty_model
   = (empty_model\<lparr>objective :=
         Some (weighted_sum example_sets example_param ''scenario_net_present_cost'')\<rparr>,
      Inr ([(Finite 4, Finite 106), (Finite 10, Finite 100)],
           [Some [''Total CO2 Emissions'' \<mapsto> Finite 10, ''Net Present Cost'' \<mapsto> Finite 100],
            Some [''Total CO2 Emissions'' \<mapsto> Finite 4, ''Net Present Cost'' \<mapsto> Finite 500],
            Some [''Total CO2 Emissions'' \<mapsto> Finite 4, ''Net Present Cost'' \<mapsto> Finite 106],
            Some [''Total CO2 Emissions'' \<mapsto> Finite 10, ''Net Present Cost'' \<mapsto> Finite 100]]))"
proof -
  let ?threshold = "\<lambda>i. np_add (Finite 4)
                           (np_mul (nearest64 (of_int i)) (np_div (np_sub (Finite 10) (Finite 4)) 1))"
  have goal: "optimization_goal (project example_settings) = 0"
    by (simp add: example_settings_def example_project_def)
  have conv: "float64_of_int (2 - 1) = Inr 1"
    using float64_of_int_small[of 1] by simp
  have n0: "nearest64 (of_int 0) = 0" and n1: "nearest64 (of_int 1) = 1"
    using nearest64_of_int[of 0] nearest64_of_int[of 1] by simp_all
  have step: "np_div (np_sub (Finite 10) (Finite 4)) 1 = Finite 6"
    by (simp add: np_simps round64_numeral)
  have t0: "?threshold 0 = Finite 4"
    unfolding step n0 np_mul_0 by (simp add: np_simps round64_numeral)
  have t1: "?threshold 1 = Finite 10"
    unfolding step n1 by (simp add: np_simps round64_numeral)
  have fin: "?threshold i \<noteq> NonFinite" if "0 \<le> i" "i < 2" for i
  proof -
    from that have "i = 0 \<or> i = 1" by arith
    with t0 t1 show ?thesis by auto
  qed
  have c0: "np_sub (Finite 110) (Finite 4) = Finite 106"
    by (simp add: np_simps round64_numeral)
  have c1: "np_sub (Finite 110) (Finite 10) = Finite 100"
    by (simp add: np_simps round64_numeral)
  have "solve_multi_objective example_settings example_sets example_param (Inr []) 2 True
          example_solver empty_model
        = (empty_model\<lparr>built_constraints := [],
             objective := Some (weighted_sum example_sets example_param ''scenario_net_present_cost''),
             co2_thresholds := []\<rparr>,
           Inr (map (\<lambda>i. (?threshold i, np_sub (Finite 110) (?threshold i))) [0..2 - 1],
                Some [''Total CO2 Emissions'' \<mapsto> Finite 10, ''Net Present Cost'' \<mapsto> Finite 100] #
                Some [''Total CO2 Emissions'' \<mapsto> Finite 4, ''Net Present Cost'' \<mapsto> Finite 500] #
                map (\<lambda>i. Some [''Total CO2 Emissions'' \<mapsto> ?threshold i,
                                ''Net Present Cost'' \<mapsto> np_sub (Finite 110) (?threshold i)])
                  [0..2 - 1]))"
    using pareto_sweep
      [where settings = example_settings and S = example_sets and param = example_param
         and built = "[]" and num_points = 2 and available = True and run = example_solver
         and ?model0.0 = empty_model and ?max_co2.0 = 10 and ?min_co2.0 = 4 and divisor = 1
         and ?s1.0 = "[''Total CO2 Emissions'' \<mapsto> Finite 10, ''Net Present Cost'' \<mapsto> Finite 100]"
         and ?s2.0 = "[''Total CO2 Emissions'' \<mapsto> Finite 4, ''Net Present Cost'' \<mapsto> Finite 500]"
         and s = "\<lambda>i. [''Total CO2 Emissions'' \<mapsto> ?threshold i,
                        ''Net Present Cost'' \<mapsto> np_sub (Finite 110) (?threshold i)]"
         and c = "\<lambda>i. np_sub (Finite 110) (?threshold i)"]
      fin conv
    by (simp add: goal example_solver_def example_objectives empty_model_def)
  then show ?thesis
    using t0 t1 c0 c1
    by (simp add: upto.simps empty_model_def)
qed

text \<open>
  C1 as stated has the thresholds of a two-point sweep equal to \<open>min_co2\<close> and \<open>max_co2\<close>.
  With anchor emissions of \<open>1610.009\<close> and \<open>25298.56\<close> the second threshold is the float64
  \<open>25298.559999999998\<close>, one unit in the last place below \<open>max_co2\<close>.
\<close>

theorem pareto_rounding_counterexample:
  "map_sum id fst
     (snd (solve_multi_objective example_settings example_sets example_param (Inr []) 2 True
             rounding_solver empty_model))
   = Inr [(Finite (885111808162005 / 549755813888), Finite 100),
          (Finite (434625951343575 / 17179869184), Finite 100)]
   \<and> round64 1610.009 = Finite (885111808162005 / 549755813888)
   \<and> round64 25298.56 = Finite (6954015221497201 / 274877906944)
   \<and> Finite (434625951343575 / 17179869184) \<noteq> round64 25298.56"
proof -
  note eval = round64_def nearest64_def binary_exponent_def round_half_even_def Let_def compute_bitlen
  have lo: "round64 1610.009 = Finite (885111808162005 / 549755813888)"
    by (simp add: eval)
  have hi: "round64 25298.56 = Finite (6954015221497201 / 274877906944)"
    by (simp add: eval)
  have lo': "round64 (1610009 / 1000) = Finite (885111808162005 / 549755813888)"
    using lo by simp
  have hi': "round64 (632464 / 25) = Finite (6954015221497201 / 274877906944)"
    using hi by simp
  have diff: "np_sub (Finite (6954015221497201 / 274877906944))
                (Finite (885111808162005 / 549755813888))
              = Finite (3255729658708099 / 137438953472)"
    by (simp add: np_simps eval)
  have fdiff: "float64 (3255729658708099 / 137438953472)"
    using diff by (rule np_sub_float64)
  have conv: "float64_of_int 0 = Inr 0" "float64_of_int 1 = Inr 1"
    using float64_of_int_small[of 0] float64_of_int_small[of 1] by simp_all
  have t0: "np_add (Finite (885111808162005 / 549755813888))
              (np_mul 0 (Finite (3255729658708099 / 137438953472)))
            = Finite (885111808162005 / 549755813888)"
    unfolding np_mul_0
    by (simp add: np_simps eval)
  have t1: "np_add (Finite (885111808162005 / 549755813888))
              (np_mul 1 (Finite (3255729658708099 / 137438953472)))
            = Finite (434625951343575 / 17179869184)"
    unfolding np_mul_1[OF fdiff]
    by (simp add: np_simps eval)
  have goal: "optimization_goal (project example_settings) = 0"
    by (simp add: example_settings_def example_project_def)
  have sweep: "map_sum id fst
     (snd (solve_multi_objective example_settings example_sets example_param (Inr []) 2 True
             rounding_solver empty_model))
   = Inr [(Finite (885111808162005 / 549755813888), Finite 100),
          (Finite (434625951343575 / 17179869184), Finite 100)]"
    by (simp add: solve_multi_objective_def sweep_body_def solve_def get_values_def
        add_objective_def add_co2_threshold_def remove_co2_threshold_def Let_def goal
        rounding_solver_def example_objectives empty_model_def upto.simps lo' hi' diff conv
        np_div_1[OF fdiff] t0 t1)
  from sweep lo hi show ?thesis by simp
qed

text \<open>
  C10. Let the anchor solves succeed and every sweep iteration before \<open>i\<close> succeed, and let
  the solver raise with message \<open>e\<close> on the model of iteration \<open>i\<close>. Where
  \<open>num_points - 1\<close> is in the range of float64, so that the sweep is entered, the call ends
  with \<open>RuntimeError("Error during solving: e")\<close> and the model it leaves still holds the
  constraint \<open>co2_threshold_i\<close>, which is \<open>total_emissions <= threshold i\<close>. Otherwise
  the step division raises \<open>OverflowError\<close> after the two anchor solves and before any
  threshold is added.
\<close>

theorem sweep_exception_keeps_constraint:
  fixes settings :: project_parameters and S :: sets and param :: dataset
    and built :: constraints and num_points i :: int and run :: solver and model0 :: linopy_model
    and s1 s2 :: solution and s :: "int \<Rightarrow> solution" and c :: "int \<Rightarrow> npfloat"
    and max_co2 min_co2 :: npfloat and e :: string
  defines "cost \<equiv> (if optimization_goal (project settings) = 0
                     then weighted_sum S param ''scenario_net_present_cost''
                     else weighted_sum S param ''total_scenario_variable_cost_nonact'')"
  defines "cost_name \<equiv> (if optimization_goal (project settings) = 0
                          then ''Net Present Cost'' else ''Total Variable Cost'')"
  defines "with_cost \<equiv> \<lambda>caps. model0\<lparr>built_constraints := built, objective := Some cost,
                                        co2_thresholds := caps\<rparr>"
  defines "with_emissions \<equiv> model0\<lparr>built_constraints := built,
                                     objective := Some (weighted_sum S param ''scenario_co2_emission''),
                                     co2_thresholds := []\<rparr>"
  defines "threshold \<equiv> \<lambda>j. np_add min_co2
                              (np_mul (nearest64 (of_int j))
                                 (np_div (np_sub max_co2 min_co2)
                                    (nearest64 (of_int (num_points - 1)))))"
  defines "co2_threshold \<equiv> \<lambda>j. \<lparr>threshold_index = j,
                                   threshold_lhs = weighted_sum S param ''scenario_co2_emission'',
                                   threshold_sense = LE, threshold_rhs = threshold j\<rparr>"
  assumes av: "available"
      and fresh: "co2_thresholds model0 = []"
      and a1: "run (with_cost []) = Inr s1" "s1 ''Total CO2 Emissions'' = Some max_co2"
      and a2: "run with_emissions = Inr s2" "s2 ''Total CO2 Emissions'' = Some min_co2"
      and i: "0 \<le> i" "i < num_points"
      and before: "\<And>j. 0 \<le> j \<Longrightarrow> j < i \<Longrightarrow>
                 run (with_cost [co2_threshold j]) = Inr (s j) \<and> s j cost_name = Some (c j)"
      and fails: "run (with_cost [co2_threshold i]) = Inl e"
  shows "solve_multi_objective settings S param (Inr built) num_points available run model0
           = (case float64_of_int (num_points - 1) of
                Inl overflow \<Rightarrow> (with_emissions, Inl overflow)
              | Inr divisor \<Rightarrow>
                  (with_cost [co2_threshold i],
                   Inl (RuntimeError (''Error during solving: '' @ e))))"
proof -
  have m1: "add_objective cost (model0\<lparr>built_constraints := built\<rparr>) = with_cost []"
    by (rule linopy_model.equality) (simp_all add: add_objective_def with_cost_def fresh)
  have m2: "add_objective (weighted_sum S param ''scenario_co2_emission'') (with_cost []) = with_emissions"
    by (simp add: add_objective_def with_cost_def with_emissions_def)
  have p1: "solve available run (with_cost []) = Inr (Some s1)"
    by (simp add: solve_def av a1)
  have g1: "get_values (Some s1) ''Total CO2 Emissions'' = Inr max_co2"
    by (simp add: get_values_def a1)
  have p2: "solve available run with_emissions = Inr (Some s2)"
    by (simp add: solve_def av a2)
  have g2: "get_values (Some s2) ''Total CO2 Emissions'' = Inr min_co2"
    by (simp add: get_values_def a2)
  show ?thesis
  proof (cases "float64_of_int (num_points - 1)")
    case (Inl overflow)
    show ?thesis
      unfolding solve_multi_objective_def cost_def[symmetric] cost_name_def[symmetric]
      by (simp only: Let_def sum.case prod.case m1 p1 g1 m2 p2 g2 Inl)
  next
    case (Inr divisor)
    have divisor: "nearest64 (of_int (num_points - 1)) = divisor"
      using float64_of_int_value[OF Inr] by simp
    let ?stp = "np_div (np_sub max_co2 min_co2) divisor"
    let ?body = "sweep_body S param available run cost cost_name min_co2 ?stp"
    let ?m = "if [0..i - 1] = [] then with_emissions else with_emissions\<lparr>objective := Some cost\<rparr>"
    have caps: "with_emissions\<lparr>objective := Some cost, co2_thresholds := k\<rparr> = with_cost k" for k
      by (simp add: with_emissions_def with_cost_def)
    have prefix: "sweep ?body [0..i - 1] (with_emissions, [Some s1, Some s2], [], [])
                    = (?m, Inr ([Some s1, Some s2] @ map (\<lambda>j. Some (s j)) [0..i - 1],
                                [] @ map c [0..i - 1],
                                [] @ map (\<lambda>j. np_add min_co2 (np_mul (nearest64 (of_int j)) ?stp))
                                       [0..i - 1]))"
    proof (rule sweep_success[OF av])
      show "co2_thresholds with_emissions = []" by (simp add: with_emissions_def)
    next
      fix j assume "j \<in> set [0..i - 1]"
      then have "0 \<le> j" "j < num_points" using i by simp_all
      then show "float64_of_int j = Inr (nearest64 (of_int j))"
        by (rule float64_of_int_below[OF Inr])
    next
      fix j assume "j \<in> set [0..i - 1]"
      then have "0 \<le> j" "j < i" by simp_all
      from before[OF this]
      show "run (with_emissions\<lparr>objective := Some cost,
                   co2_thresholds :=
                     [\<lparr>threshold_index = j,
                       threshold_lhs = weighted_sum S param ''scenario_co2_emission'',
                       threshold_sense = LE,
                       threshold_rhs = np_add min_co2 (np_mul (nearest64 (of_int j)) ?stp)\<rparr>]\<rparr>)
              = Inr (s j)
            \<and> s j cost_name = Some (c j)"
        by (simp only: caps co2_threshold_def threshold_def divisor)
    qed
    have m_caps: "co2_thresholds ?m = []" by (simp add: with_emissions_def)
    have m_cost: "?m\<lparr>objective := Some cost, co2_thresholds := k\<rparr> = with_cost k" for k
      by (simp add: with_emissions_def with_cost_def)
    have conv_i: "float64_of_int i = Inr (nearest64 (of_int i))"
      using i by (rule float64_of_int_below[OF Inr])
    have at_i: "?body i (?m, sols, npc, co2)
                  = (with_cost [co2_threshold i], Inl (RuntimeError (''Error during solving: '' @ e)))"
      for sols npc co2
    proof -
      have "run (?m\<lparr>objective := Some cost,
                   co2_thresholds :=
                     [\<lparr>threshold_index = i,
                       threshold_lhs = weighted_sum S param ''scenario_co2_emission'',
                       threshold_sense = LE,
                       threshold_rhs = np_add min_co2 (np_mul (nearest64 (of_int i)) ?stp)\<rparr>]\<rparr>)
              = Inl e"
        using fails by (simp only: m_cost co2_threshold_def threshold_def divisor)
      from sweep_body_raises[where m = ?m and cost = cost and i = i and lo = min_co2 and stp = ?stp
             and run = run and e = e and cv = cost_name and sols = sols and npc = npc and ?co2.0 = co2
             and S = S and param = param and f = "nearest64 (of_int i)",
             OF av m_caps conv_i this]
      show ?thesis by (simp only: m_cost co2_threshold_def threshold_def divisor)
    qed
    have split: "[0..num_points - 1] = [0..i - 1] @ i # [i + 1..num_points - 1]"
      using i by (intro upto_split_at) simp_all
    have loop: "sweep ?body [0..num_points - 1] (with_emissions, [Some s1, Some s2], [], [])
                  = (with_cost [co2_threshold i], Inl (RuntimeError (''Error during solving: '' @ e)))"
      by (subst split) (simp only: sweep_append prefix prod.case sum.case sweep.simps at_i)
    show ?thesis
      unfolding solve_multi_objective_def cost_def[symmetric] cost_name_def[symmetric]
      by (simp only: Let_def sum.case prod.case m1 p1 g1 m2 p2 g2 Inr loop)
  qed
qed

theorem sweep_exception_keeps_constraint_witness:
  "solve_multi_objective example_settings example_sets example_param (Inr []) 3 True
     failing_solver empty_model
   = (empty_model\<lparr>objective :=
         Some (weighted_sum example_sets example_param ''scenario_net_present_cost''),
         co2_thresholds :=
           [\<lparr>threshold_index = 1,
             threshold_lhs = weighted_sum example_sets example_param ''scenario_co2_emission'',
             threshold_sense = LE, threshold_rhs = Finite 7\<rparr>]\<rparr>,
      Inl (RuntimeError ''Error during solving: infeasible''))"
proof -
  let ?threshold = "\<lambda>j. np_add (Finite 4)
                           (np_mul (nearest64 (of_int j))
                              (np_div (np_sub (Finite 10) (Finite 4)) (nearest64 (of_int (3 - 1)))))"
  have goal: "optimization_goal (project example_settings) = 0"
    by (simp add: example_settings_def example_project_def)
  have conv: "float64_of_int (3 - 1) = Inr 2"
    using float64_of_int_small[of 2] by simp
  have n1: "nearest64 (of_int 1) = 1" and n2: "nearest64 (of_int (3 - 1)) = 2"
    using nearest64_of_int[of 1] nearest64_of_int[of 2] by simp_all
  have t1: "?threshold 1 = Finite 7"
    unfolding n1 n2 by (simp add: np_simps round64_numeral)
  have "solve_multi_objective example_settings example_sets example_param (Inr []) 3 True
          failing_solver empty_model
        = (empty_model\<lparr>built_constraints := [],
             objective := Some (weighted_sum example_sets example_param ''scenario_net_present_cost''),
             co2_thresholds :=
               [\<lparr>threshold_index = 1,
                 threshold_lhs = weighted_sum example_sets example_param ''scenario_co2_emission'',
                 threshold_sense = LE, threshold_rhs = ?threshold 1\<rparr>]\<rparr>,
           Inl (RuntimeError (''Error during solving: '' @ ''infeasible'')))"
    using sweep_exception_keeps_constraint
      [where settings = example_settings and S = example_sets and param = example_param
         and built = "[]" and num_points = 3 and i = 1 and available = True
         and run = failing_solver and ?model0.0 = empty_model
         and ?max_co2.0 = "Finite 10" and ?min_co2.0 = "Finite 4" and e = "''infeasible''"
         and ?s1.0 = "[''Total CO2 Emissions'' \<mapsto> Finite 10, ''Net Present Cost'' \<mapsto> Finite 100]"
         and ?s2.0 = "[''Total CO2 Emissions'' \<mapsto> Finite 4, ''Net Present Cost'' \<mapsto> Finite 500]"
         and s = "\<lambda>j. [''Total CO2 Emissions'' \<mapsto> ?threshold j,
                        ''Net Present Cost'' \<mapsto> np_sub (Finite 110) (?threshold j)]"
         and c = "\<lambda>j. np_sub (Finite 110) (?threshold j)"]
      conv
    by (simp add: goal failing_solver_def example_solver_def example_objectives empty_model_def)
  then show ?thesis
    using t1 by (simp add: empty_model_def)
qed

text \<open>
  C8 (as amended). The function does not look at \<open>num_points\<close> before it solves. Whatever
  \<open>num_points\<close> is, the cost-minimising solve is the first thing run after the build, and
  an exception of the solver there ends the call with \<open>RuntimeError\<close>. With
  \<open>num_points <= 0\<close> and two successful anchor solves, the sweep is empty and the call
  returns the empty Pareto list with the two anchor solutions; only where \<open>num_points - 1\<close>
  is beyond the range of float64 does the step division raise \<open>OverflowError\<close> instead,
  after the two solves.
\<close>

theorem no_num_points_check:
  fixes settings :: project_parameters and S :: sets and param :: dataset
    and built :: constraints and num_points :: int and run :: solver and model0 :: linopy_model
    and s1 s2 :: solution and max_co2 min_co2 :: npfloat and e :: string
  defines "cost \<equiv> (if optimization_goal (project settings) = 0
                     then weighted_sum S param ''scenario_net_present_cost''
                     else weighted_sum S param ''total_scenario_variable_cost_nonact'')"
  defines "with_cost \<equiv> model0\<lparr>built_constraints := built, objective := Some cost\<rparr>"
  defines "with_emissions \<equiv> model0\<lparr>built_constraints := built,
                                     objective := Some (weighted_sum S param ''scenario_co2_emission'')\<rparr>"
  assumes av: "available"
  shows "(run with_cost = Inl e \<longrightarrow>
            solve_multi_objective settings S param (Inr built) num_points available run model0
              = (with_cost, Inl (RuntimeError (''Error during solving: '' @ e))))
       \<and> (num_points \<le> 0
            \<and> run with_cost = Inr s1 \<and> s1 ''Total CO2 Emissions'' = Some max_co2
            \<and> run with_emissions = Inr s2 \<and> s2 ''Total CO2 Emissions'' = Some min_co2 \<longrightarrow>
            solve_multi_objective settings S param (Inr built) num_points available run model0
              = (with_emissions,
                 case float64_of_int (num_points - 1) of
                   Inl overflow \<Rightarrow> Inl overflow
                 | Inr divisor \<Rightarrow> Inr ([], [Some s1, Some s2])))"
proof -
  have m1: "add_objective cost (model0\<lparr>built_constraints := built\<rparr>) = with_cost"
    by (simp add: add_objective_def with_cost_def)
  have m2: "add_objective (weighted_sum S param ''scenario_co2_emission'') with_cost = with_emissions"
    by (simp add: add_objective_def with_cost_def with_emissions_def)
  have first: "solve_multi_objective settings S param (Inr built) num_points available run model0
              = (with_cost, Inl (RuntimeError (''Error during solving: '' @ e)))"
    if "run with_cost = Inl e"
  proof -
    have p1: "solve available run with_cost = Inl (RuntimeError (''Error during solving: '' @ e))"
      by (simp add: solve_def av that)
    show ?thesis
      unfolding solve_multi_objective_def cost_def[symmetric]
      by (simp only: Let_def sum.case m1 p1)
  qed
  have empty: "solve_multi_objective settings S param (Inr built) num_points available run model0
              = (with_emissions,
                 case float64_of_int (num_points - 1) of
                   Inl overflow \<Rightarrow> Inl overflow
                 | Inr divisor \<Rightarrow> Inr ([], [Some s1, Some s2]))"
    if n: "num_points \<le> 0"
      and a1: "run with_cost = Inr s1" "s1 ''Total CO2 Emissions'' = Some max_co2"
      and a2: "run with_emissions = Inr s2" "s2 ''Total CO2 Emissions'' = Some min_co2"
  proof -
    have p1: "solve available run with_cost = Inr (Some s1)"
      by (simp add: solve_def av a1)
    have g1: "get_values (Some s1) ''Total CO2 Emissions'' = Inr max_co2"
      by (simp add: get_values_def a1)
    have p2: "solve available run with_emissions = Inr (Some s2)"
      by (simp add: solve_def av a2)
    have g2: "get_values (Some s2) ''Total CO2 Emissions'' = Inr min_co2"
      by (simp add: get_values_def a2)
    have none: "[0..num_points - 1] = []" using n by simp
    show ?thesis
    proof (cases "float64_of_int (num_points - 1)")
      case (Inl overflow)
      show ?thesis
        unfolding solve_multi_objective_def cost_def[symmetric]
        by (simp only: Let_def sum.case prod.case m1 p1 g1 m2 p2 g2 Inl)
    next
      case (Inr divisor)
      show ?thesis
        unfolding solve_multi_objective_def cost_def[symmetric]
        by (simp only: Let_def sum.case prod.case m1 p1 g1 m2 p2 g2 Inr none sweep.simps
            fst_conv snd_conv zip.simps)
    qed
  qed
  from first empty show ?thesis by blast
qed

theorem no_num_points_check_witness:
  "solve_multi_objective example_settings example_sets example_param (Inr []) 0 True
     example_solver empty_model
   = (empty_model\<lparr>objective :=
         Some (weighted_sum example_sets example_param ''scenario_co2_emission'')\<rparr>,
      Inr ([], [Some [''Total CO2 Emissions'' \<mapsto> Finite 10, ''Net Present Cost'' \<mapsto> Finite 100],
                Some [''Total CO2 Emissions'' \<mapsto> Finite 4, ''Net Present Cost'' \<mapsto> Finite 500]]))
   \<and> solve_multi_objective example_settings example_sets example_param (Inr []) 1 True
         (\<lambda>m. Inl ''no licence'') empty_model
       = (empty_model\<lparr>objective :=
            Some (weighted_sum example_sets example_param ''scenario_net_present_cost'')\<rparr>,
          Inl (RuntimeError ''Error during solving: no licence''))"
proof -
  have goal: "optimization_goal (project example_settings) = 0"
    by (simp add: example_settings_def example_project_def)
  have conv: "float64_of_int (0 - 1) = Inr (- 1)"
    using float64_of_int_small[of "- 1"] by simp
  show ?thesis
    using no_num_points_check
      [where settings = example_settings and S = example_sets and param = example_param
         and built = "[]" and num_points = 0 and available = True and run = example_solver
         and ?model0.0 = empty_model
         and ?max_co2.0 = "Finite 10" and ?min_co2.0 = "Finite 4"
         and ?s1.0 = "[''Total CO2 Emissions'' \<mapsto> Finite 10, ''Net Present Cost'' \<mapsto> Finite 100]"
         and ?s2.0 = "[''Total CO2 Emissions'' \<mapsto> Finite 4, ''Net Present Cost'' \<mapsto> Finite 500]"]
      no_num_points_check
      [where settings = example_settings and S = example_sets and param = example_param
         and built = "[]" and num_points = 1 and available = True and run = "\<lambda>m. Inl ''no licence''"
         and ?model0.0 = empty_model and e = "''no licence''"]
      conv
    by (simp add: goal example_solver_def example_objectives empty_model_def)
qed

text \<open>
  C8 as stated has a configuration error raised before any solve when \<open>num_points < 2\<close>.
  With \<open>num_points = 0\<close> the call solves twice and returns without any error.
\<close>

theorem num_points_zero_counterexample:
  "snd (solve_multi_objective example_settings example_sets example_param (Inr []) 0 True
          example_solver empty_model)
   = Inr ([], [Some [''Total CO2 Emissions'' \<mapsto> Finite 10, ''Net Present Cost'' \<mapsto> Finite 100],
               Some [''Total CO2 Emissions'' \<mapsto> Finite 4, ''Net Present Cost'' \<mapsto> Finite 500]])"
proof -
  have conv: "float64_of_int (- 1) = Inr (- 1)"
    using float64_of_int_small[of "- 1"] by simp
  show ?thesis
    by (simp add: solve_multi_objective_def solve_def get_values_def add_objective_def Let_def
        example_settings_def example_project_def example_solver_def example_objectives
        empty_model_def conv)
qed

end
